theory Spec2Isabelle
  imports Complex_Main "HOL-Library.AList"
begin

section \<open>JavaScript numbers\<close>

text \<open>
  A JavaScript number is a binary64 value: a finite number, a zero of either sign, an
  infinity or NaN. \<open>Fin r\<close> is the finite value \<open>r\<close> (\<open>Fin 0\<close> is \<open>+0\<close>) and \<open>NegZero\<close> is
  \<open>-0\<close>. Every arithmetic operation gives the exact result rounded to the nearest binary64
  value, a tie going to the even significand, as the language prescribes.
\<close>

datatype number = Fin real | NegZero | PosInf | NegInf | NaN

text \<open>The binary exponent of a positive real: the \<open>e\<close> with \<open>2^e \<le> x < 2^(e+1)\<close>.\<close>

function floor_log2 :: "real \<Rightarrow> int" where
  "floor_log2 x =
     (if x \<le> 0 then 0
      else if x < 1 then floor_log2 (2 * x) - 1
      else if 2 \<le> x then floor_log2 (x / 2) + 1
      else 0)"
  by pat_completeness auto
termination
proof (relation "measure (\<lambda>x. if x < 1 then nat \<lceil>1 / x\<rceil> else nat \<lfloor>x\<rfloor>)")
  show "wf (measure (\<lambda>x::real. if x < 1 then nat \<lceil>1 / x\<rceil> else nat \<lfloor>x\<rfloor>))"
    by simp
next
  fix x :: real
  assume a: "\<not> x \<le> 0" "x < 1"
  show "(2 * x, x) \<in> measure (\<lambda>x. if x < 1 then nat \<lceil>1 / x\<rceil> else nat \<lfloor>x\<rfloor>)"
  proof (cases "2 * x < 1")
    case True
    with a have "1 / (2 * x) + 1 < 1 / x" by (simp add: field_simps)
    moreover have "of_int \<lceil>1 / (2 * x)\<rceil> < 1 / (2 * x) + 1" by linarith
    moreover have "1 / x \<le> of_int \<lceil>1 / x\<rceil>" by simp
    ultimately have "(of_int \<lceil>1 / (2 * x)\<rceil> :: real) < of_int \<lceil>1 / x\<rceil>" by linarith
    then have "\<lceil>1 / (2 * x)\<rceil> < \<lceil>1 / x\<rceil>" by simp
    moreover from a have "0 < \<lceil>1 / x\<rceil>" by (simp add: field_simps)
    ultimately show ?thesis using a True by simp
  next
    case False
    with a have "\<lfloor>2 * x\<rfloor> = 1" by (simp add: floor_eq_iff)
    moreover from a have "1 < 1 / x" by (simp add: field_simps)
    then have "2 \<le> \<lceil>1 / x\<rceil>" by (simp add: le_ceiling_iff)
    ultimately show ?thesis using a False by simp
  qed
next
  fix x :: real
  assume a: "\<not> x \<le> 0" "\<not> x < 1" "2 \<le> x"
  then have "x / 2 \<le> x - 1" by simp
  then have "\<lfloor>x / 2\<rfloor> \<le> \<lfloor>x - 1\<rfloor>" by (rule floor_mono)
  then have "\<lfloor>x / 2\<rfloor> < \<lfloor>x\<rfloor>" by simp
  moreover from a have "0 < \<lfloor>x\<rfloor>" by simp
  ultimately show "(x / 2, x) \<in> measure (\<lambda>x. if x < 1 then nat \<lceil>1 / x\<rceil> else nat \<lfloor>x\<rfloor>)"
    using a by simp
qed

declare floor_log2.simps [simp del]

text \<open>The nearest integer, a tie going to the even one.\<close>

definition round_to_even :: "real \<Rightarrow> int" where
  "round_to_even q =
     (let f = \<lfloor>q\<rfloor>; d = q - of_int f
      in if d < 1 / 2 then f else if 1 / 2 < d then f + 1 else if even f then f else f + 1)"

text \<open>
  Rounding a real to binary64. The significand has 53 bits, so the spacing of the values
  around \<open>x\<close> is \<open>2^(e - 52)\<close>, where the exponent \<open>e\<close> is not taken below \<open>-1022\<close> (the
  subnormal range). A result of magnitude \<open>2^1024\<close> is an infinity, and a result that
  rounds to nothing is a zero with the sign of \<open>x\<close>.
\<close>

definition round64 :: "real \<Rightarrow> number" where
  "round64 x =
     (let e = max (floor_log2 \<bar>x\<bar>) (- 1022);
          n = round_to_even (x / 2 powi (e - 52))
      in if n = 0 then (if x < 0 then NegZero else Fin 0)
         else if 1023 < e \<or> (e = 1023 \<and> \<bar>n\<bar> = 2 ^ 53) then (if x < 0 then NegInf else PosInf)
         else Fin (of_int n * 2 powi (e - 52)))"

text \<open>The value of a finite number and the sign bit of any number.\<close>

fun val :: "number \<Rightarrow> real" where
  "val (Fin r) = r"
| "val _ = 0"

fun sign_bit :: "number \<Rightarrow> bool" where
  "sign_bit (Fin r) = (r < 0)"
| "sign_bit NegZero = True"
| "sign_bit NegInf = True"
| "sign_bit _ = False"

fun is_finite :: "number \<Rightarrow> bool" where
  "is_finite (Fin r) = True"
| "is_finite NegZero = True"
| "is_finite _ = False"

definition zero_of :: "bool \<Rightarrow> number" where
  "zero_of negative = (if negative then NegZero else Fin 0)"

definition inf_of :: "bool \<Rightarrow> number" where
  "inf_of negative = (if negative then NegInf else PosInf)"

fun js_neg :: "number \<Rightarrow> number" where
  "js_neg (Fin r) = (if r = 0 then NegZero else Fin (- r))"
| "js_neg NegZero = Fin 0"
| "js_neg PosInf = NegInf"
| "js_neg NegInf = PosInf"
| "js_neg NaN = NaN"

text \<open>
  A sum that is exactly zero is \<open>+0\<close>, unless both terms are negative zeros; any other
  finite sum is rounded.
\<close>

definition js_add :: "number \<Rightarrow> number \<Rightarrow> number" where
  "js_add a b =
     (if a = NaN \<or> b = NaN then NaN
      else if is_finite a \<and> is_finite b
      then (if val a + val b = 0 then zero_of (sign_bit a \<and> sign_bit b)
            else round64 (val a + val b))
      else if is_finite a then b
      else if is_finite b then a
      else if a = b then a
      else NaN)"

definition js_sub :: "number \<Rightarrow> number \<Rightarrow> number" where
  "js_sub a b = js_add a (js_neg b)"

fun js_abs :: "number \<Rightarrow> number" where
  "js_abs (Fin r) = Fin \<bar>r\<bar>"
| "js_abs NegZero = Fin 0"
| "js_abs PosInf = PosInf"
| "js_abs NegInf = PosInf"
| "js_abs NaN = NaN"

text \<open>The sign of a product or quotient is the exclusive or of the signs.\<close>

definition js_mul :: "number \<Rightarrow> number \<Rightarrow> number" where
  "js_mul a b =
     (let negative = (sign_bit a \<noteq> sign_bit b)
      in if a = NaN \<or> b = NaN then NaN
         else if is_finite a \<and> is_finite b
         then (if val a * val b = 0 then zero_of negative else round64 (val a * val b))
         else if (is_finite a \<and> val a = 0) \<or> (is_finite b \<and> val b = 0) then NaN
         else inf_of negative)"

definition js_div :: "number \<Rightarrow> number \<Rightarrow> number" where
  "js_div a b =
     (let negative = (sign_bit a \<noteq> sign_bit b)
      in if a = NaN \<or> b = NaN then NaN
         else if is_finite a \<and> is_finite b
         then (if val b = 0 then (if val a = 0 then NaN else inf_of negative)
               else if val a = 0 then zero_of negative
               else round64 (val a / val b))
         else if is_finite b then inf_of negative
         else if is_finite a then zero_of negative
         else NaN)"

text \<open>Comparisons: every comparison with NaN is false, and the two zeros are equal.\<close>

definition js_lt :: "number \<Rightarrow> number \<Rightarrow> bool" where
  "js_lt a b =
     (if a = NaN \<or> b = NaN then False
      else if is_finite a \<and> is_finite b then val a < val b
      else if is_finite a then b = PosInf
      else if is_finite b then a = NegInf
      else a = NegInf \<and> b = PosInf)"

definition js_gt :: "number \<Rightarrow> number \<Rightarrow> bool" where
  "js_gt a b = js_lt b a"

definition js_ge :: "number \<Rightarrow> number \<Rightarrow> bool" where
  "js_ge a b = (a \<noteq> NaN \<and> b \<noteq> NaN \<and> \<not> js_lt a b)"

text \<open>
  \<open>Math.round\<close>: the nearest integer, a tie going up; a value from \<open>-0.5\<close> up to but not
  including zero gives \<open>-0\<close>.
\<close>

fun Math_round :: "number \<Rightarrow> number" where
  "Math_round (Fin r) = (if r < 0 \<and> - (1 / 2) \<le> r then NegZero else Fin (of_int \<lfloor>r + 1 / 2\<rfloor>))"
| "Math_round x = x"

text \<open>A decimal literal of the source, and \<open>parseFloat\<close> of a decimal numeral: the nearest binary64 value.\<close>

definition literal :: "real \<Rightarrow> number" where
  "literal r = round64 r"

text \<open>
  The numbers that binary64 holds: a finite value that rounding leaves as it is, and the
  special values. Whatever \<open>parseFloat\<close> or an operation returns is one of them.
\<close>

fun is_double :: "number \<Rightarrow> bool" where
  "is_double (Fin r) = (r = 0 \<or> round64 r = Fin r)"
| "is_double _ = True"

text \<open>
  The least positive binary64 value, and its multiples: every binary64 value is one of
  them.
\<close>

definition grid_unit :: real where
  "grid_unit = 2 powi (- 1074)"

definition on_grid :: "real \<Rightarrow> bool" where
  "on_grid r = (\<exists>k :: int. r = of_int k * grid_unit)"

section \<open>The scanner's data\<close>

text \<open>
  A \<open>Map\<close> keeps its keys in insertion order, and the selector's tie-break is about that
  order, so a \<open>Map\<close> is an association list: \<open>get\<close> is \<^const>\<open>map_of\<close>, \<open>set\<close> is
  \<^const>\<open>AList.update\<close> (an existing key keeps its place, a new key goes last) and
  \<open>clear\<close> gives the empty list. A timestamp is a \<open>Date\<close> read as milliseconds.
  The fields that only serve \<open>start\<close> and \<open>stop\<close> (\<open>isRunning\<close>, \<open>intervalId\<close>,
  \<open>lastMinuteCheck\<close>) are left out.
\<close>

record sample =
  price :: number
  timestamp :: int

record scanner =
  priceHistory :: "(string \<times> sample list) list"
  volatilityScores :: "(string \<times> number) list"
  volumes :: "(string \<times> number) list"
  hasErrorThisMinute :: bool

text \<open>
  One entry of \<open>data.result.list\<close>, an object. The numeric fields hold what
  \<open>parseFloat\<close> makes of the raw field (NaN when it is missing or not a number);
  \<open>t_symbol\<close> is \<open>None\<close> when the entry has no string \<open>symbol\<close>.
\<close>

record ticker =
  t_symbol :: "string option"
  lastPrice :: number
  turnover24h :: number
  t_fundingRate :: number

datatype fetch_error = AbortError | ECONNRESET | ETIMEDOUT | OtherError

text \<open>
  What one \<open>fetch\<close> of the tickers gives: \<open>Rejected\<close> when the request, \<open>response.json()\<close>
  or the path \<open>data.result.list\<close> throws, \<open>Resolved\<close> with the list otherwise.
\<close>

datatype response = Rejected fetch_error | Resolved "ticker list"

definition constructor :: scanner where
  "constructor = \<lparr>priceHistory = [], volatilityScores = [], volumes = [],
     hasErrorThisMinute = False\<rparr>"

definition reset :: "scanner \<Rightarrow> scanner" where
  "reset s = s\<lparr>priceHistory := [], volatilityScores := [], volumes := [],
     hasErrorThisMinute := False\<rparr>"

section \<open>fetchTickers\<close>

definition endsWith :: "string \<Rightarrow> string \<Rightarrow> bool" where
  "endsWith str suf =
     (length suf \<le> length str \<and> drop (length str - length suf) str = suf)"

text \<open>
  The body of the \<open>forEach\<close> callback for an accepted symbol: the sample is pushed on the
  symbol's array (created empty when the symbol is new) and the volume is overwritten.
\<close>

definition record_ticker :: "int \<Rightarrow> string \<Rightarrow> ticker \<Rightarrow> scanner \<Rightarrow> scanner" where
  "record_ticker currentTime symb tk s =
     (let smp = \<lparr>price = lastPrice tk, timestamp = currentTime\<rparr>;
          ph = (if map_of (priceHistory s) symb = None
                then AList.update symb [] (priceHistory s) else priceHistory s);
          arr = (case map_of ph symb of None \<Rightarrow> [] | Some a \<Rightarrow> a)
      in s\<lparr>priceHistory := AList.update symb (arr @ [smp]) ph,
           volumes := AList.update symb (turnover24h tk) (volumes s)\<rparr>)"

text \<open>
  The \<open>forEach\<close> over the list. An entry without a string symbol makes \<open>endsWith\<close> throw a
  TypeError: the loop stops there, what was recorded before stays, and the flag returned is
  \<open>True\<close>.
\<close>

fun forEach_ticker :: "int \<Rightarrow> ticker list \<Rightarrow> scanner \<Rightarrow> scanner \<times> bool" where
  "forEach_ticker currentTime [] s = (s, False)"
| "forEach_ticker currentTime (tk # tks) s =
     (case t_symbol tk of
        None \<Rightarrow> (s, True)
      | Some symb \<Rightarrow>
          if endsWith symb ''USDT''
          then forEach_ticker currentTime tks (record_ticker currentTime symb tk s)
          else forEach_ticker currentTime tks s)"

text \<open>
  The \<open>try\<close>/\<open>catch\<close> around it: whatever is thrown sets the flag; the kind of error only
  chooses the console message, which is not modelled. Nothing leaves \<open>fetchTickers\<close>.
\<close>

definition fetchTickers :: "response \<Rightarrow> int \<Rightarrow> scanner \<Rightarrow> scanner" where
  "fetchTickers resp currentTime s =
     (case resp of
        Rejected e \<Rightarrow> s\<lparr>hasErrorThisMinute := True\<rparr>
      | Resolved tks \<Rightarrow>
          (case forEach_ticker currentTime tks s of
             (s', thrown) \<Rightarrow> if thrown then s'\<lparr>hasErrorThisMinute := True\<rparr> else s'))"

section \<open>calculateVolatility\<close>

text \<open>The \<open>for\<close> loop from \<open>i = 1\<close> that adds up the absolute moves.\<close>

function movement_loop :: "sample list \<Rightarrow> nat \<Rightarrow> number \<Rightarrow> number" where
  "movement_loop relevantPrices i totalMovement =
     (if i < length relevantPrices
      then movement_loop relevantPrices (i + 1)
             (js_add totalMovement
                (js_abs (js_sub (price (relevantPrices ! i)) (price (relevantPrices ! (i - 1))))))
      else totalMovement)"
  by pat_completeness auto
termination
  by (relation "measure (\<lambda>(rel, i, t). length rel - i)") auto

declare movement_loop.simps [simp del]

definition volatilityScore :: "sample list \<Rightarrow> number" where
  "volatilityScore relevantPrices =
     (let totalMovement = movement_loop relevantPrices 1 (Fin 0);
          averagePrice =
            js_div (foldl (\<lambda>sum p. js_add sum (price p)) (Fin 0) relevantPrices)
                   (Fin (real (length relevantPrices)))
      in js_mul (js_div totalMovement averagePrice) (Fin 100))"

definition relevant :: "int \<Rightarrow> sample list \<Rightarrow> sample list" where
  "relevant oneMinuteAgo prices = filter (\<lambda>p. timestamp p \<ge> oneMinuteAgo) prices"

text \<open>The loop over \<open>priceHistory.entries()\<close>; the accumulator is the score map.\<close>

fun score_entries ::
  "int \<Rightarrow> (string \<times> sample list) list \<Rightarrow> (string \<times> number) list \<Rightarrow> (string \<times> number) list"
where
  "score_entries oneMinuteAgo [] scores = scores"
| "score_entries oneMinuteAgo ((symb, prices) # rest) scores =
     (let relevantPrices = relevant oneMinuteAgo prices
      in if length relevantPrices < 2 then score_entries oneMinuteAgo rest scores
         else score_entries oneMinuteAgo rest
                (AList.update symb (volatilityScore relevantPrices) scores))"

definition calculateVolatility :: "int \<Rightarrow> scanner \<Rightarrow> scanner" where
  "calculateVolatility now s =
     (let cleared = s\<lparr>volatilityScores := []\<rparr>;
          oneMinuteAgo = now - 60000
      in cleared\<lparr>volatilityScores :=
           score_entries oneMinuteAgo (priceHistory cleared) (volatilityScores cleared)\<rparr>)"

section \<open>findBestPerformer\<close>

text \<open>
  \<open>this.volumes.get(symbol)\<close> where a number is expected: a missing key gives
  \<open>undefined\<close>, which compares and subtracts as NaN.
\<close>

definition volume_of :: "scanner \<Rightarrow> string \<Rightarrow> number" where
  "volume_of s symb = (case map_of (volumes s) symb of None \<Rightarrow> NaN | Some v \<Rightarrow> v)"

definition minVolume :: number where
  "minVolume = Fin 10000000"

text \<open>
  The comparator handed to \<open>sort\<close>. Its \<open>0.0001\<close> is the binary64 value of that literal,
  and both differences are rounded.
\<close>

definition compare_pairs :: "scanner \<Rightarrow> string \<times> number \<Rightarrow> string \<times> number \<Rightarrow> number" where
  "compare_pairs s a b =
     (case a of (symbolA, scoreA) \<Rightarrow> case b of (symbolB, scoreB) \<Rightarrow>
        let scoreDiff = js_sub scoreB scoreA
        in if js_gt (js_abs scoreDiff) (literal (1 / 10000)) then scoreDiff
           else js_sub (volume_of s symbolB) (volume_of s symbolA))"

text \<open>
  \<open>Array.prototype.sort\<close> belongs to the engine, not to the program, and the language
  leaves its result to the engine whenever the comparator is not a consistent order, as this
  one is not in general (its ties are not transitive). The sort is therefore a parameter
  of the selector. An element goes before another when the comparator's value for the two
  is below zero; NaN counts as zero.
\<close>

type_synonym sorter =
  "(string \<times> number \<Rightarrow> string \<times> number \<Rightarrow> number)
     \<Rightarrow> (string \<times> number) list \<Rightarrow> (string \<times> number) list"

record performer =
  symbol :: "string option"
  moves :: number
  hasError :: bool

definition passes_floor :: "scanner \<Rightarrow> string \<times> number \<Rightarrow> bool" where
  "passes_floor s entry = js_ge (volume_of s (fst entry)) minVolume"

definition findBestPerformer :: "sorter \<Rightarrow> scanner \<Rightarrow> performer" where
  "findBestPerformer sort_by s =
     (let topPairs = sort_by (compare_pairs s) (filter (passes_floor s) (volatilityScores s))
      in case topPairs of
           [] \<Rightarrow> \<lparr>symbol = None, moves = Fin 0, hasError = hasErrorThisMinute s\<rparr>
         | (symb, score) # _ \<Rightarrow>
             \<lparr>symbol = Some symb, moves = Math_round (js_mul score (Fin 100)),
              hasError = hasErrorThisMinute s\<rparr>)"

text \<open>
  What the theorems ask of the engine's sort. It returns the elements it was given. And an
  element that the comparator puts strictly before every other one comes first: the
  language guarantees this whenever the comparator orders the elements consistently, since
  the result is then ordered by it.
\<close>

definition keeps_elements :: "sorter \<Rightarrow> bool" where
  "keeps_elements sort_by = (\<forall>cmp xs. set (sort_by cmp xs) = set xs)"

definition strictly_first :: "('a \<Rightarrow> 'a \<Rightarrow> number) \<Rightarrow> 'a \<Rightarrow> 'a list \<Rightarrow> bool" where
  "strictly_first cmp a xs =
     (a \<in> set xs \<and>
      (\<forall>y \<in> set xs. y \<noteq> a \<longrightarrow> js_lt (cmp a y) (Fin 0) \<and> \<not> js_lt (cmp y a) (Fin 0)))"

definition least_first :: "sorter \<Rightarrow> bool" where
  "least_first sort_by =
     (\<forall>cmp xs a. strictly_first cmp a xs \<longrightarrow> (\<exists>rest. sort_by cmp xs = a # rest))"

text \<open>No later element of the list goes strictly before an earlier one.\<close>

definition ordered_by :: "('a \<Rightarrow> 'a \<Rightarrow> number) \<Rightarrow> 'a list \<Rightarrow> bool" where
  "ordered_by cmp xs = sorted_wrt (\<lambda>x y. \<not> js_lt (cmp y x) (Fin 0)) xs"

text \<open>One sort that meets both demands: a stable insertion sort.\<close>

fun insert_sorted :: "('a \<Rightarrow> 'a \<Rightarrow> number) \<Rightarrow> 'a \<Rightarrow> 'a list \<Rightarrow> 'a list" where
  "insert_sorted cmp x [] = [x]"
| "insert_sorted cmp x (y # ys) =
     (if js_lt (cmp x y) (Fin 0) then x # y # ys else y # insert_sorted cmp x ys)"

definition insertion_sort :: "('a \<Rightarrow> 'a \<Rightarrow> number) \<Rightarrow> 'a list \<Rightarrow> 'a list" where
  "insertion_sort cmp xs = foldl (\<lambda>sorted x. insert_sorted cmp x sorted) [] xs"

section \<open>cleanupOldData\<close>

text \<open>
  The loop sets every key it visits to its filtered array. The keys exist already, so the
  order of the map does not change while it is iterated.
\<close>

fun prune_entries ::
  "int \<Rightarrow> (string \<times> sample list) list \<Rightarrow> (string \<times> sample list) list
     \<Rightarrow> (string \<times> sample list) list"
where
  "prune_entries twoMinutesAgo [] history = history"
| "prune_entries twoMinutesAgo ((symb, prices) # rest) history =
     prune_entries twoMinutesAgo rest
       (AList.update symb (filter (\<lambda>p. timestamp p \<ge> twoMinutesAgo) prices) history)"

definition cleanupOldData :: "int \<Rightarrow> scanner \<Rightarrow> scanner" where
  "cleanupOldData now s =
     s\<lparr>priceHistory := prune_entries (now - 120000) (priceHistory s) (priceHistory s)\<rparr>"

section \<open>Number.prototype.toFixed\<close>

definition digit_char :: "nat \<Rightarrow> char" where
  "digit_char d = ''0123456789'' ! d"

fun decimal :: "nat \<Rightarrow> string" where
  "decimal n = (if n < 10 then [digit_char n] else decimal (n div 10) @ [digit_char (n mod 10)])"

declare decimal.simps [simp del]

text \<open>
  The string \<open>toFixed\<close> returns: the exact value of the number, rounded to \<open>f\<close> decimals with
  a tie going up. From \<open>10^21\<close> on it falls back to the number's ordinary string, in
  exponent form, whose digits are not modelled: \<open>Exponent\<close> stands for it. A negative zero
  is written as zero.
\<close>

datatype fixed = Digits string | Exponent real

definition fixed_digits :: "nat \<Rightarrow> real \<Rightarrow> fixed" where
  "fixed_digits f r =
     (if \<bar>r\<bar> \<ge> 10 ^ 21 then Exponent r
      else
        let sgn = (if r < 0 then ''-'' else []);
            n = nat \<lfloor>\<bar>r\<bar> * 10 ^ f + 1 / 2\<rfloor>;
            m = decimal n;
            m = (if length m \<le> f then replicate (f + 1 - length m) CHR ''0'' @ m else m);
            k = length m
        in Digits (sgn @ (if f = 0 then m else take (k - f) m @ ''.'' @ drop (k - f) m)))"

definition toFixed :: "nat \<Rightarrow> number \<Rightarrow> fixed" where
  "toFixed f x =
     (case x of
        NaN \<Rightarrow> Digits ''NaN''
      | PosInf \<Rightarrow> Digits ''Infinity''
      | NegInf \<Rightarrow> Digits ''-Infinity''
      | NegZero \<Rightarrow> fixed_digits f 0
      | Fin r \<Rightarrow> fixed_digits f r)"

section \<open>processMinute\<close>

text \<open>
  \<open>setInterval\<close> starts a tick every second and waits for none, so a tick that is waiting
  for the network shares the scanner with the ticks started meanwhile. Between two
  \<open>await\<close>s a tick runs alone; what the others do to the state while it waits is a list of
  such uninterrupted steps.
\<close>

datatype step =
  StepReset
| StepFetched response int
| StepEstimate int
| StepCleanup int

fun run_step :: "step \<Rightarrow> scanner \<Rightarrow> scanner" where
  "run_step StepReset s = reset s"
| "run_step (StepFetched resp currentTime) s = fetchTickers resp currentTime s"
| "run_step (StepEstimate now) s = calculateVolatility now s"
| "run_step (StepCleanup now) s = cleanupOldData now s"

definition run_steps :: "step list \<Rightarrow> scanner \<Rightarrow> scanner" where
  "run_steps steps s = foldl (\<lambda>state st. run_step st state) s steps"

text \<open>
  The inputs of one tick: the second it reads from the clock, what its fetch gives and
  when, the time its estimate reads, what the extra read at the end of the minute gives,
  and what the other ticks do while it waits for its fetch and between the return of
  \<open>fetchTickers\<close> and the estimate. What the tick does to the outside is recorded in
  order: the methods it calls, the extra read, and the event it emits.
\<close>

record tick =
  tick_seconds :: nat
  tick_fetch :: response
  tick_fetchTime :: int
  tick_now :: int
  tick_lookup :: response
  tick_during_fetch :: "step list"
  tick_before_estimate :: "step list"

datatype 'p effect = Reset | Fetch | Estimate | Select | Lookup | Emit 'p

datatype js_error = FetchRejected fetch_error | TypeError

record 'p outcome =
  after :: scanner
  effects :: "'p effect list"
  raised :: "js_error option"

text \<open>\<open>result.symbol\<close> as a condition: \<open>null\<close> and the empty string are false.\<close>

definition truthy :: "string option \<Rightarrow> bool" where
  "truthy v = (case v of None \<Rightarrow> False | Some str \<Rightarrow> str \<noteq> [])"

text \<open>
  The first two \<open>if\<close>s are the same in both files. \<open>fetchTickers\<close> changes the state when
  its response has arrived, so it acts on the state the other ticks have left by then.
\<close>

definition accumulate :: "tick \<Rightarrow> scanner \<Rightarrow> 'p outcome" where
  "accumulate t s =
     (let r = (if tick_seconds t = 0
               then \<lparr>after = reset s, effects = [Reset], raised = None\<rparr>
               else \<lparr>after = s, effects = [], raised = None\<rparr>)
      in if tick_seconds t < 59
         then \<lparr>after = calculateVolatility (tick_now t)
                         (run_steps (tick_before_estimate t)
                            (fetchTickers (tick_fetch t) (tick_fetchTime t)
                               (run_steps (tick_during_fetch t) (after r)))),
               effects = effects r @ [Fetch, Estimate], raised = None\<rparr>
         else r)"

text \<open>
  \<open>processMinute\<close> of \<open>server.js\<close>: the event carries the selector's result. The selector
  reads the state at once; after it the tick neither reads nor changes the scanner, so what
  the other ticks do during the later \<open>await\<close>s is no part of it.
\<close>

definition processMinute :: "sorter \<Rightarrow> tick \<Rightarrow> scanner \<Rightarrow> performer outcome" where
  "processMinute sort_by t s =
     (let r = accumulate t s
      in if tick_seconds t = 59
         then (let result = findBestPerformer sort_by (after r)
               in if \<not> hasError result \<and> truthy (symbol result)
                  then r\<lparr>effects := effects r @ [Select, Emit result]\<rparr>
                  else r\<lparr>effects := effects r @ [Select]\<rparr>)
         else r)"

text \<open>
  \<open>processMinute\<close> of the second file: before it emits, it reads the tickers once more,
  outside any \<open>try\<close>, and looks the winner up. A rejected read, and a list without the
  winner (\<open>ticker\<close> is then \<open>undefined\<close>), leave the method as an exception.
\<close>

record payload =
  p_symbol :: "string option"
  p_moves :: number
  turnover :: fixed
  fundingRate :: fixed

definition processMinute_part000 :: "sorter \<Rightarrow> tick \<Rightarrow> scanner \<Rightarrow> payload outcome" where
  "processMinute_part000 sort_by t s =
     (let r = accumulate t s
      in if tick_seconds t = 59
         then (let result = findBestPerformer sort_by (after r)
               in if \<not> hasError result \<and> truthy (symbol result)
                  then (case tick_lookup t of
                          Rejected e \<Rightarrow>
                            r\<lparr>effects := effects r @ [Select, Lookup],
                              raised := Some (FetchRejected e)\<rparr>
                        | Resolved tks \<Rightarrow>
                            (case find (\<lambda>tk. t_symbol tk = symbol result) tks of
                               None \<Rightarrow>
                                 r\<lparr>effects := effects r @ [Select, Lookup],
                                   raised := Some TypeError\<rparr>
                             | Some tk \<Rightarrow>
                                 r\<lparr>effects := effects r @
                                     [Select, Lookup,
                                      Emit \<lparr>p_symbol = symbol result,
                                            p_moves = moves result,
                                            turnover =
                                              toFixed 2 (js_div (turnover24h tk) (Fin 1000000)),
                                            fundingRate =
                                              toFixed 4 (js_mul (t_fundingRate tk) (Fin 100))\<rparr>]\<rparr>))
                  else r\<lparr>effects := effects r @ [Select]\<rparr>)
         else r)"

section \<open>Reachable states\<close>

text \<open>
  The scanner starts from its constructor. Between two \<open>await\<close>s a method changes the state
  in one piece, so whatever the interleaving of ticks, the state moves by these steps.
\<close>

inductive reachable :: "scanner \<Rightarrow> bool" where
  start: "reachable constructor"
| reset: "reachable s \<Longrightarrow> reachable (reset s)"
| fetch: "reachable s \<Longrightarrow> reachable (fetchTickers resp currentTime s)"
| estimate: "reachable s \<Longrightarrow> reachable (calculateVolatility now s)"
| cleanup: "reachable s \<Longrightarrow> reachable (cleanupOldData now s)"

text \<open>
  Every symbol with a score or a history also has a volume, and no map holds a key twice.
\<close>

definition covered :: "scanner \<Rightarrow> bool" where
  "covered s =
     (fst ` set (volatilityScores s) \<subseteq> fst ` set (volumes s) \<and>
      fst ` set (priceHistory s) \<subseteq> fst ` set (volumes s))"

definition distinct_keys :: "scanner \<Rightarrow> bool" where
  "distinct_keys s =
     (distinct (map fst (priceHistory s)) \<and> distinct (map fst (volatilityScores s)) \<and>
      distinct (map fst (volumes s)))"

section \<open>Reading a decimal string\<close>

definition digit_value :: "char \<Rightarrow> nat" where
  "digit_value c = of_char c - of_char CHR ''0''"

definition digits_value :: "string \<Rightarrow> nat" where
  "digits_value str = foldl (\<lambda>n c. 10 * n + digit_value c) 0 str"

definition is_digit :: "char \<Rightarrow> bool" where
  "is_digit c = (c \<in> set ''0123456789'')"

text \<open>
  A string shows the number \<open>r\<close> with \<open>f\<close> decimals: an optional minus sign, at least one
  digit, a point and exactly \<open>f\<close> digits, which read together are \<open>\<bar>r\<bar> * 10^f\<close> rounded
  to the nearest integer, a tie going up.
\<close>

definition decimal_places :: "nat \<Rightarrow> real \<Rightarrow> fixed \<Rightarrow> bool" where
  "decimal_places f r out =
     (\<exists>whole frac.
        out = Digits ((if r < 0 then ''-'' else []) @ whole @ ''.'' @ frac) \<and>
        whole \<noteq> [] \<and> length frac = f \<and> (\<forall>c \<in> set (whole @ frac). is_digit c) \<and>
        digits_value (whole @ frac) = nat \<lfloor>\<bar>r\<bar> * 10 ^ f + 1 / 2\<rfloor>)"

section \<open>The estimator as the specification words it\<close>

text \<open>
  A sample counts when it lies in the trailing 60 seconds. The score is the sum of the
  absolute differences of consecutive prices, over the mean price, times 100; the sums are
  taken from the left, as the code takes them.
\<close>

definition in_window :: "int \<Rightarrow> sample \<Rightarrow> bool" where
  "in_window now p = (now - 60000 \<le> timestamp p)"

definition spec_totalMovement :: "number list \<Rightarrow> number" where
  "spec_totalMovement ps = foldl js_add (Fin 0) (map2 (\<lambda>a b. js_abs (js_sub b a)) ps (tl ps))"

definition spec_avgPrice :: "number list \<Rightarrow> number" where
  "spec_avgPrice ps = js_div (foldl js_add (Fin 0) ps) (Fin (real (length ps)))"

definition spec_score :: "number list \<Rightarrow> number" where
  "spec_score ps = js_mul (js_div (spec_totalMovement ps) (spec_avgPrice ps)) (Fin 100)"

text \<open>
  Pruning as the specification words it: every log keeps the samples of the trailing 120
  seconds, and nothing else changes.
\<close>

definition retained :: "int \<Rightarrow> sample \<Rightarrow> bool" where
  "retained now p = (now - 120000 \<le> timestamp p)"

definition spec_prune :: "int \<Rightarrow> (string \<times> sample list) list \<Rightarrow> (string \<times> sample list) list" where
  "spec_prune now history = map (\<lambda>(symb, prices). (symb, filter (retained now) prices)) history"


text \<open>
  The ranking as the specification words it: the higher score goes first, but scores within
  0.0001 of each other are tied, and of two tied symbols the one with the larger volume
  goes first. The difference and the tolerance are those of the arithmetic above.
\<close>

definition ranks_before :: "scanner \<Rightarrow> string \<times> number \<Rightarrow> string \<times> number \<Rightarrow> bool" where
  "ranks_before s a b =
     (if js_gt (js_abs (js_sub (snd a) (snd b))) (literal (1 / 10000))
      then js_gt (snd a) (snd b)
      else js_gt (volume_of s (fst a)) (volume_of s (fst b)))"

text \<open>The integer nearest to a real, a tie going up.\<close>

definition nearest_integer :: "real \<Rightarrow> int \<Rightarrow> bool" where
  "nearest_integer p n = (of_int n - 1 / 2 \<le> p \<and> p < of_int n + 1 / 2)"

section \<open>Example states\<close>

text \<open>
  At time 4000: one symbol with three samples inside the window, one with two samples and
  a volume under the floor, one with a single sample, and a score left over from the tick
  before.
\<close>

definition example_history :: scanner where
  "example_history =
     \<lparr>priceHistory =
        [(''AUSDT'', [\<lparr>price = Fin 100, timestamp = 1000\<rparr>,
                      \<lparr>price = Fin 101, timestamp = 2000\<rparr>,
                      \<lparr>price = Fin 99, timestamp = 3000\<rparr>]),
         (''BUSDT'', [\<lparr>price = Fin 297, timestamp = 2000\<rparr>,
                      \<lparr>price = Fin 343, timestamp = 3000\<rparr>]),
         (''CUSDT'', [\<lparr>price = Fin 5, timestamp = 3000\<rparr>])],
      volatilityScores = [(''OLDUSDT'', Fin 7)],
      volumes = [(''AUSDT'', Fin 10045000), (''BUSDT'', Fin 5000000), (''CUSDT'', Fin 30000000)],
      hasErrorThisMinute = False\<rparr>"

text \<open>
  The best score belongs to a symbol under the volume floor; the other score is the
  binary64 value of \<open>0.015\<close>.
\<close>

definition example_floor :: scanner where
  "example_floor =
     \<lparr>priceHistory = [],
      volatilityScores = [(''XUSDT'', Fin 9), (''YUSDT'', literal (15 / 1000))],
      volumes = [(''XUSDT'', Fin 5000000), (''YUSDT'', Fin 20000000)],
      hasErrorThisMinute = False\<rparr>"

text \<open>No scored symbol reaches the floor.\<close>

definition example_thin :: scanner where
  "example_thin =
     \<lparr>priceHistory = [],
      volatilityScores = [(''XUSDT'', Fin 9)],
      volumes = [(''XUSDT'', Fin 5000000)],
      hasErrorThisMinute = False\<rparr>"

text \<open>Two tied symbols and a third that outscores both.\<close>

definition example_three :: scanner where
  "example_three =
     \<lparr>priceHistory =
        [(''AUSDT'', [\<lparr>price = Fin 100, timestamp = 1000\<rparr>, \<lparr>price = Fin 100, timestamp = 2000\<rparr>]),
         (''BUSDT'', [\<lparr>price = Fin 50, timestamp = 1000\<rparr>, \<lparr>price = Fin 50, timestamp = 2000\<rparr>]),
         (''CUSDT'', [\<lparr>price = Fin 100, timestamp = 1000\<rparr>, \<lparr>price = Fin 101, timestamp = 1500\<rparr>,
                      \<lparr>price = Fin 99, timestamp = 2000\<rparr>])],
      volatilityScores = [(''AUSDT'', Fin 0), (''BUSDT'', Fin 0), (''CUSDT'', Fin 3)],
      volumes = [(''AUSDT'', Fin 30000000), (''BUSDT'', Fin 20000000), (''CUSDT'', Fin 10000000)],
      hasErrorThisMinute = False\<rparr>"

text \<open>
  Three scores within the tolerance of each other; the symbol with the largest volume
  comes last in the map and has the lowest score. The two other scores are the binary64
  value of \<open>0.0001\<close>, which is not more than the comparator's \<open>0.0001\<close> away from zero.
\<close>

definition example_tie :: scanner where
  "example_tie =
     \<lparr>priceHistory = [],
      volatilityScores =
        [(''AUSDT'', literal (1 / 10000)), (''BUSDT'', literal (1 / 10000)), (''XUSDT'', Fin 0)],
      volumes = [(''AUSDT'', Fin 20000000), (''BUSDT'', Fin 15000000), (''XUSDT'', Fin 30000000)],
      hasErrorThisMinute = False\<rparr>"

text \<open>At time 200000: samples aged 130, 90 and 1 seconds.\<close>

definition example_aged :: scanner where
  "example_aged =
     \<lparr>priceHistory =
        [(''AUSDT'', [\<lparr>price = Fin 100, timestamp = 70000\<rparr>,
                      \<lparr>price = Fin 101, timestamp = 110000\<rparr>,
                      \<lparr>price = Fin 99, timestamp = 199000\<rparr>])],
      volatilityScores = [],
      volumes = [(''AUSDT'', Fin 20000000)],
      hasErrorThisMinute = False\<rparr>"

text \<open>
  A snapshot of the market: one USDT symbol and one that is not. The turnover in millions
  is 10.045 and the funding rate in percent is 0.00055 on paper; in binary64 the first
  falls just below and the second just above.
\<close>

definition example_snapshot :: "ticker list" where
  "example_snapshot =
     [\<lparr>t_symbol = Some ''AUSDT'', lastPrice = Fin 100, turnover24h = Fin 10045000,
       t_fundingRate = literal (55 / 10000000)\<rparr>,
      \<lparr>t_symbol = Some ''BTCUSD'', lastPrice = Fin 60000, turnover24h = Fin 900000000,
       t_fundingRate = literal (1 / 10000)\<rparr>]"

text \<open>A tick that no other tick overlaps.\<close>

definition example_tick :: "nat \<Rightarrow> tick" where
  "example_tick sec =
     \<lparr>tick_seconds = sec, tick_fetch = Resolved example_snapshot, tick_fetchTime = 4000,
      tick_now = 4001, tick_lookup = Resolved example_snapshot,
      tick_during_fetch = [], tick_before_estimate = []\<rparr>"

text \<open>
  The tick of second 0 while the fetch of the tick before is still under way: its samples
  arrive after the reset.
\<close>

definition example_overlap :: tick where
  "example_overlap =
     (example_tick 0)\<lparr>tick_during_fetch := [StepFetched (Resolved example_snapshot) 3990]\<rparr>"

text \<open>Two fetches and an estimate after the constructor.\<close>

definition example_reached :: scanner where
  "example_reached =
     calculateVolatility 4001
       (fetchTickers (Resolved example_snapshot) 4000
          (fetchTickers (Resolved example_snapshot) 3000 constructor))"

text \<open>The scores of \<open>example_history\<close> at time 4000; the winner is \<open>AUSDT\<close>.\<close>

definition example_scored :: scanner where
  "example_scored = calculateVolatility 4000 example_history"

text \<open>The same scores in a minute that saw a failed fetch.\<close>

definition example_failed :: scanner where
  "example_failed = example_scored\<lparr>hasErrorThisMinute := True\<rparr>"

text \<open>The tick at second 59 whose extra read of the tickers times out.\<close>

definition example_lookup_fails :: tick where
  "example_lookup_fails = (example_tick 59)\<lparr>tick_lookup := Rejected ETIMEDOUT\<rparr>"

section \<open>Rounding\<close>

lemmas round64_eval = round64_def round_to_even_def floor_log2.simps Let_def

lemma floor_log2_lower: "0 < x \<Longrightarrow> 2 powi (floor_log2 x) \<le> x"
proof (induction x rule: floor_log2.induct)
  case (1 x)
  show ?case
  proof (cases "x < 1")
    case True
    with "1.prems" have "2 powi (floor_log2 (2 * x)) \<le> 2 * x"
      by (intro "1.IH"(1)) simp_all
    moreover have "floor_log2 x = floor_log2 (2 * x) - 1"
      using True "1.prems" by (subst floor_log2.simps) simp
    ultimately show ?thesis
      by (simp add: power_int_diff)
  next
    case False
    show ?thesis
    proof (cases "2 \<le> x")
      case True
      with "1.prems" False have "2 powi (floor_log2 (x / 2)) \<le> x / 2"
        by (intro "1.IH"(2)) simp_all
      moreover have "floor_log2 x = floor_log2 (x / 2) + 1"
        using True False "1.prems" by (subst floor_log2.simps) simp
      ultimately show ?thesis
        by (simp add: power_int_add)
    next
      case nlarge: False
      with False "1.prems" have "floor_log2 x = 0"
        by (subst floor_log2.simps) simp
      with False show ?thesis by simp
    qed
  qed
qed

lemma round_to_even_minus: "round_to_even (- q) = - round_to_even q"
proof (cases "q = of_int \<lfloor>q\<rfloor>")
  case True
  then obtain k :: int where "q = of_int k" ..
  then show ?thesis
    by (simp add: round_to_even_def flip: of_int_minus)
next
  case False
  then have c: "\<lceil>q\<rceil> = \<lfloor>q\<rfloor> + 1"
    by (simp add: ceiling_altdef)
  have f: "\<lfloor>- q\<rfloor> = - \<lfloor>q\<rfloor> - 1"
    using c by (simp add: floor_minus)
  have "0 \<le> q - of_int \<lfloor>q\<rfloor>" "q - of_int \<lfloor>q\<rfloor> < 1"
    by linarith+
  then show ?thesis
    unfolding round_to_even_def Let_def f
    by (auto simp: field_simps)
qed

lemma round_to_even_sign:
  "0 \<le> q \<Longrightarrow> 0 \<le> round_to_even q"
  "q \<le> 0 \<Longrightarrow> round_to_even q \<le> 0"
  "1 \<le> q \<Longrightarrow> 1 \<le> round_to_even q"
proof -
  show "0 \<le> q \<Longrightarrow> 0 \<le> round_to_even q"
    by (auto simp: round_to_even_def Let_def)
  show "1 \<le> q \<Longrightarrow> 1 \<le> round_to_even q"
    by (auto simp: round_to_even_def Let_def le_floor_iff intro: order_trans)
  assume "q \<le> 0"
  then have "0 \<le> round_to_even (- q)"
    by (auto simp: round_to_even_def Let_def)
  then show "round_to_even q \<le> 0"
    by (simp add: round_to_even_minus)
qed

lemma round64_minus: "x \<noteq> 0 \<Longrightarrow> round64 (- x) = js_neg (round64 x)"
  by (auto simp: round64_def Let_def round_to_even_minus)

text \<open>Rounding keeps the side of zero.\<close>

lemma round64_negative:
  assumes "x < 0"
  shows "sign_bit (round64 x)" and "round64 x \<noteq> NaN" and "val (round64 x) \<le> 0"
proof -
  let ?u = "(2::real) powi (max (floor_log2 \<bar>x\<bar>) (- 1022) - 52)"
  have u: "0 < ?u" by (simp add: zero_less_power_int)
  with assms have "x / ?u \<le> 0" by (simp add: field_simps)
  then have n: "round_to_even (x / ?u) \<le> 0" by (rule round_to_even_sign)
  then have "of_int (round_to_even (x / ?u)) * ?u \<le> 0"
    using u by (simp add: mult_le_0_iff)
  moreover have "round_to_even (x / ?u) \<noteq> 0 \<Longrightarrow> of_int (round_to_even (x / ?u)) * ?u < 0"
    using n u by (simp add: mult_less_0_iff)
  ultimately show "sign_bit (round64 x)" and "round64 x \<noteq> NaN" and "val (round64 x) \<le> 0"
    using assms by (auto simp: round64_def Let_def)
qed

text \<open>
  A binary64 value is a multiple of the least positive one, and a nonzero multiple of it
  does not round to zero.
\<close>

lemma grid_unit_positive: "0 < grid_unit"
  by (simp add: grid_unit_def zero_less_power_int del: power_int_numeral_neg_numeral)

lemma spacing_on_grid:
  assumes "- 1022 \<le> e"
  shows "(2::real) powi (e - 52) = of_int (2 ^ nat (e + 1022)) * grid_unit"
proof -
  have "(2::real) powi (e - 52) = 2 powi ((e + 1022) + (- 1074))" by simp
  also have "\<dots> = 2 powi (e + 1022) * 2 powi (- 1074)"
    by (rule power_int_add) simp
  also have "(2::real) powi (e + 1022) = 2 ^ nat (e + 1022)"
    using assms by (intro power_int_nonneg_exp) simp
  finally show ?thesis by (simp add: grid_unit_def del: power_int_numeral_neg_numeral)
qed

lemma on_grid_zero: "on_grid 0"
proof -
  have "(0::real) = of_int 0 * grid_unit" by simp
  then show ?thesis unfolding on_grid_def by blast
qed

lemma on_grid_diff:
  assumes "on_grid a" and "on_grid b"
  shows "on_grid (a - b)"
proof -
  from assms obtain k l :: int where "a = of_int k * grid_unit" "b = of_int l * grid_unit"
    by (auto simp: on_grid_def)
  then have "a - b = of_int (k - l) * grid_unit"
    by (simp add: algebra_simps)
  then show ?thesis unfolding on_grid_def by blast
qed

lemma is_double_on_grid:
  assumes "is_double a"
  shows "on_grid (val a)"
proof (cases a)
  case (Fin r)
  show ?thesis
  proof (cases "r = 0")
    case True
    with Fin show ?thesis by (simp add: on_grid_zero)
  next
    case False
    define e where "e = max (floor_log2 \<bar>r\<bar>) (- 1022)"
    define u where "u = (2::real) powi (e - 52)"
    define n where "n = round_to_even (r / u)"
    from assms Fin False have "round64 r = Fin r" by simp
    then have "r = of_int n * u"
      by (auto simp: round64_def Let_def e_def u_def n_def split: if_splits)
    moreover have "u = of_int (2 ^ nat (e + 1022)) * grid_unit"
      unfolding u_def by (rule spacing_on_grid) (simp add: e_def)
    ultimately have "r = of_int (n * 2 ^ nat (e + 1022)) * grid_unit"
      by simp
    then have "on_grid r" unfolding on_grid_def by blast
    with Fin show ?thesis by simp
  qed
qed (simp_all add: on_grid_zero)

lemma round64_grid_nonzero:
  assumes "on_grid x" and "x \<noteq> 0"
  shows "round64 x \<noteq> Fin 0" and "round64 x \<noteq> NegZero"
proof -
  let ?e = "max (floor_log2 \<bar>x\<bar>) (- 1022)"
  let ?u = "(2::real) powi (?e - 52)"
  have u: "0 < ?u" by (simp add: zero_less_power_int)
  have big: "?u \<le> \<bar>x\<bar>"
  proof (cases "- 1022 \<le> floor_log2 \<bar>x\<bar>")
    case True
    then have "?u \<le> 2 powi (floor_log2 \<bar>x\<bar>)"
      by (simp add: max_def power_int_increasing)
    also have "\<dots> \<le> \<bar>x\<bar>"
      using assms(2) by (intro floor_log2_lower) simp
    finally show ?thesis .
  next
    case False
    then have "?e = - 1022" by (simp add: max_def)
    then have e: "?u = grid_unit"
      by (simp add: grid_unit_def del: power_int_numeral_neg_numeral)
    from assms obtain k :: int where k: "x = of_int k * grid_unit" and k0: "k \<noteq> 0"
      by (auto simp: on_grid_def)
    from k0 have "1 \<le> \<bar>k\<bar>" by simp
    then have "(1::real) \<le> of_int \<bar>k\<bar>" by (simp only: of_int_1_le_iff)
    then have "grid_unit \<le> of_int \<bar>k\<bar> * grid_unit"
      using grid_unit_positive by simp
    with k e grid_unit_positive show ?thesis
      by (simp add: abs_mult)
  qed
  have "round_to_even (x / ?u) \<noteq> 0"
  proof (cases "0 < x")
    case True
    with big u have "1 \<le> x / ?u" by (simp add: field_simps)
    then have "1 \<le> round_to_even (x / ?u)" by (rule round_to_even_sign)
    then show ?thesis by simp
  next
    case False
    with assms(2) big u have "1 \<le> - (x / ?u)" by (simp add: field_simps)
    then have "1 \<le> round_to_even (- (x / ?u))" by (rule round_to_even_sign)
    then show ?thesis by (simp add: round_to_even_minus)
  qed
  moreover have "of_int (round_to_even (x / ?u)) * ?u = 0 \<longleftrightarrow> round_to_even (x / ?u) = 0"
    using u by simp
  ultimately show "round64 x \<noteq> Fin 0" and "round64 x \<noteq> NegZero"
    by (auto simp: round64_def Let_def)
qed


section \<open>Differences and their signs\<close>

lemma js_neg_facts:
  "is_finite (js_neg a) = is_finite a"
  "val (js_neg a) = - val a"
  "js_neg a = NaN \<longleftrightarrow> a = NaN"
  "js_abs (js_neg a) = js_abs a"
  "js_lt (js_neg a) (Fin 0) = js_lt (Fin 0) a"
  "js_lt (Fin 0) (js_neg a) = js_lt a (Fin 0)"
  by (cases a; simp add: js_lt_def)+

lemma zero_of_facts:
  "js_abs (zero_of b) = Fin 0"
  "\<not> js_lt (zero_of b) (Fin 0)"
  "\<not> js_lt (Fin 0) (zero_of b)"
  by (simp_all add: zero_of_def js_lt_def)

lemma js_sub_finite:
  assumes "is_finite x" and "is_finite y"
  shows "js_sub x y =
     (if val x = val y then zero_of (sign_bit x \<and> sign_bit (js_neg y))
      else round64 (val x - val y))"
  using assms by (cases x; cases y; simp add: js_sub_def js_add_def)

text \<open>Taking a difference the other way round negates it; a zero stays a zero.\<close>

lemma js_sub_swap:
  "js_abs (js_sub y x) = js_abs (js_sub x y)"
  "js_lt (js_sub y x) (Fin 0) = js_lt (Fin 0) (js_sub x y)"
proof -
  have "js_abs (js_sub y x) = js_abs (js_sub x y) \<and>
        js_lt (js_sub y x) (Fin 0) = js_lt (Fin 0) (js_sub x y)"
  proof (cases "is_finite x \<and> is_finite y")
    case True
    show ?thesis
    proof (cases "val x = val y")
      case same: True
      with True show ?thesis
        by (simp add: js_sub_finite zero_of_facts)
    next
      case False
      then have "round64 (val y - val x) = js_neg (round64 (val x - val y))"
        using round64_minus [of "val x - val y"] by simp
      with True False show ?thesis
        by (simp add: js_sub_finite js_neg_facts)
    qed
  next
    case False
    then show ?thesis
      by (cases x; cases y; simp add: js_sub_def js_add_def js_lt_def)
  qed
  then show "js_abs (js_sub y x) = js_abs (js_sub x y)"
    and "js_lt (js_sub y x) (Fin 0) = js_lt (Fin 0) (js_sub x y)"
    by simp_all
qed

text \<open>The difference of a smaller and a larger number is not positive.\<close>

lemma js_sub_not_positive:
  assumes "js_lt x y"
  shows "\<not> js_lt (Fin 0) (js_sub x y)"
proof (cases "is_finite x \<and> is_finite y")
  case True
  with assms have lt: "val x - val y < 0"
    by (simp add: js_lt_def split: if_splits)
  from round64_negative [OF lt] have "\<not> js_lt (Fin 0) (round64 (val x - val y))"
    by (cases "round64 (val x - val y)") (simp_all add: js_lt_def)
  with True lt show ?thesis
    by (simp add: js_sub_finite)
next
  case False
  with assms show ?thesis
    by (cases x; cases y; simp add: js_sub_def js_add_def js_lt_def)
qed

text \<open>Between binary64 values it is negative.\<close>

lemma js_sub_negative:
  assumes "js_lt x y" and "is_double x" and "is_double y"
  shows "js_lt (js_sub x y) (Fin 0)"
proof (cases "is_finite x \<and> is_finite y")
  case True
  with assms have lt: "val x - val y < 0"
    by (simp add: js_lt_def split: if_splits)
  have "on_grid (val x - val y)"
    using assms by (intro on_grid_diff is_double_on_grid)
  with lt have nz: "round64 (val x - val y) \<noteq> Fin 0" "round64 (val x - val y) \<noteq> NegZero"
    using round64_grid_nonzero [of "val x - val y"] by simp_all
  from round64_negative [OF lt] nz have "js_lt (round64 (val x - val y)) (Fin 0)"
    by (cases "round64 (val x - val y)") (simp_all add: js_lt_def)
  with True lt show ?thesis
    by (simp add: js_sub_finite)
next
  case False
  with assms show ?thesis
    by (cases x; cases y; simp add: js_sub_def js_add_def js_lt_def)
qed

lemma tolerance_value: "literal (1 / 10000) = Fin (7378697629483821 / 73786976294838206464)"
  by (simp add: literal_def round64_eval)

lemma beyond_tolerance:
  assumes "js_gt (js_abs d) (literal (1 / 10000))"
  shows "js_lt d (Fin 0) \<or> js_lt (Fin 0) d"
  using assms by (cases d) (auto simp: tolerance_value js_gt_def js_lt_def)

text \<open>
  Two finite scores that differ by at most 0.0001 are tied for the comparator: their rounded
  difference does not exceed the binary64 value of \<open>0.0001\<close>, which lies a little above
  0.0001.
\<close>

lemma round_to_even_le: "q \<le> of_int m \<Longrightarrow> round_to_even q \<le> m"
proof -
  assume a: "q \<le> of_int m"
  show ?thesis
  proof (cases "q = of_int m")
    case True
    then show ?thesis by (simp add: round_to_even_def)
  next
    case False
    with a have "q < of_int m" by simp
    then have "\<lfloor>q\<rfloor> < m" by (simp add: floor_less_iff)
    then show ?thesis
      by (auto simp: round_to_even_def Let_def)
  qed
qed

lemma floor_log2_small:
  assumes "0 < x" and "x \<le> 1 / 10000"
  shows "floor_log2 x \<le> - 14"
proof (rule ccontr)
  assume "\<not> floor_log2 x \<le> - 14"
  then have "- 13 \<le> floor_log2 x" by simp
  then have "(2::real) powi (- 13) \<le> 2 powi (floor_log2 x)"
    by (rule power_int_increasing) simp
  also have "\<dots> \<le> x"
    using assms(1) by (rule floor_log2_lower)
  finally have "(2::real) powi (- 13) \<le> 1 / 10000"
    using assms(2) by simp
  then show False
    by (simp add: power_int_minus field_simps)
qed

lemma round64_within:
  assumes "0 < x" and "x \<le> 1 / 10000"
  shows "\<exists>r. round64 x = Fin r \<and> 0 \<le> r \<and> r \<le> 7378697629483821 / 73786976294838206464"
proof -
  define e where "e = max (floor_log2 x) (- 1022)"
  define u :: real where "u = 2 powi (e - 52)"
  define n where "n = round_to_even (x / u)"
  define m :: int where "m = 7378697629483821 * 2 ^ nat (- 14 - e)"
  from assms have e: "e \<le> - 14" "- 1022 \<le> e"
    using floor_log2_small [of x] by (simp_all add: e_def)
  have u: "0 < u"
    by (simp add: u_def zero_less_power_int)
  have "(2::real) ^ nat (- 14 - e) = 2 powi (- 14 - e)"
    using e by (simp add: power_int_def)
  then have "of_int m * u = 7378697629483821 * (2 powi (- 14 - e) * 2 powi (e - 52))"
    by (simp add: m_def u_def)
  also have "(2::real) powi (- 14 - e) * 2 powi (e - 52) = 2 powi ((- 14 - e) + (e - 52))"
    by (rule power_int_add [symmetric]) simp
  also have "(- 14 - e) + (e - 52) = - 66" by simp
  finally have m: "of_int m * u = 7378697629483821 / 73786976294838206464"
    by (simp add: power_int_minus field_simps)
  from assms(2) have "x \<le> of_int m * u"
    unfolding m by simp
  with u have "x / u \<le> of_int m"
    by (simp add: field_simps)
  then have upper: "n \<le> m"
    unfolding n_def by (rule round_to_even_le)
  from assms(1) u have "0 \<le> x / u" by simp
  then have lower: "0 \<le> n"
    unfolding n_def by (rule round_to_even_sign)
  from assms(1) have ax: "\<bar>x\<bar> = x" by simp
  have "round64 x =
      (if n = 0 then (if x < 0 then NegZero else Fin 0)
       else if 1023 < e \<or> (e = 1023 \<and> \<bar>n\<bar> = 2 ^ 53) then (if x < 0 then NegInf else PosInf)
       else Fin (of_int n * u))"
    unfolding round64_def Let_def ax n_def u_def e_def by (rule refl)
  with assms(1) e have r: "round64 x = (if n = 0 then Fin 0 else Fin (of_int n * u))"
    by simp
  from upper u have "of_int n * u \<le> of_int m * u"
    by simp
  then have le: "of_int n * u \<le> 7378697629483821 / 73786976294838206464"
    unfolding m .
  from lower u have ge: "0 \<le> of_int n * u"
    by simp
  from r le ge show ?thesis
    by (cases "n = 0") simp_all
qed

lemma within_tolerance_tied:
  assumes "\<bar>sa - sb\<bar> \<le> 1 / 10000"
  shows "\<not> js_gt (js_abs (js_sub (Fin sa) (Fin sb))) (literal (1 / 10000))"
proof -
  let ?l = "7378697629483821 / 73786976294838206464 :: real"
  consider "sa = sb" | "0 < sa - sb" | "sa - sb < 0" by linarith
  then have "\<exists>r. js_abs (js_sub (Fin sa) (Fin sb)) = Fin r \<and> r \<le> ?l"
  proof cases
    case 1
    then show ?thesis
      by (simp add: js_sub_finite zero_of_facts)
  next
    case 2
    with assms round64_within [of "sa - sb"] obtain r where
      "round64 (sa - sb) = Fin r" "0 \<le> r" "r \<le> ?l"
      by auto
    with 2 show ?thesis
      by (simp add: js_sub_finite)
  next
    case 3
    with assms round64_within [of "sb - sa"] obtain r where
      r: "round64 (sb - sa) = Fin r" "0 \<le> r" "r \<le> ?l"
      by auto
    from 3 have "round64 (sa - sb) = js_neg (round64 (sb - sa))"
      using round64_minus [of "sb - sa"] by simp
    with 3 r show ?thesis
      by (simp add: js_sub_finite)
  qed
  then show ?thesis
    by (auto simp: tolerance_value js_gt_def js_lt_def)
qed

section \<open>The comparator and the specified ranking\<close>

lemma compare_pairs_unfold:
  "compare_pairs s a b =
     (if js_gt (js_abs (js_sub (snd b) (snd a))) (literal (1 / 10000)) then js_sub (snd b) (snd a)
      else js_sub (volume_of s (fst b)) (volume_of s (fst a)))"
  by (cases a; cases b) (simp add: compare_pairs_def Let_def)

text \<open>
  What ranks before another, the comparator puts strictly before it, whichever way the
  sort asks.
\<close>

lemma ranks_before_compare:
  assumes "ranks_before s a b"
    and "is_double (volume_of s (fst a))" and "is_double (volume_of s (fst b))"
  shows "js_lt (compare_pairs s a b) (Fin 0)" and "\<not> js_lt (compare_pairs s b a) (Fin 0)"
proof -
  have "js_lt (compare_pairs s a b) (Fin 0) \<and> \<not> js_lt (compare_pairs s b a) (Fin 0)"
  proof (cases "js_gt (js_abs (js_sub (snd a) (snd b))) (literal (1 / 10000))")
    case True
    then have apart: "js_gt (js_abs (js_sub (snd b) (snd a))) (literal (1 / 10000))"
      by (simp add: js_sub_swap(1))
    from assms(1) True have "js_lt (snd b) (snd a)"
      by (simp add: ranks_before_def js_gt_def)
    then have "\<not> js_lt (Fin 0) (js_sub (snd b) (snd a))"
      by (rule js_sub_not_positive)
    with beyond_tolerance [OF apart]
    have "js_lt (js_sub (snd b) (snd a)) (Fin 0)" "\<not> js_lt (js_sub (snd a) (snd b)) (Fin 0)"
      by (simp_all add: js_sub_swap(2))
    with True apart show ?thesis
      by (simp add: compare_pairs_unfold)
  next
    case False
    then have tied: "\<not> js_gt (js_abs (js_sub (snd b) (snd a))) (literal (1 / 10000))"
      by (simp add: js_sub_swap(1))
    from assms(1) False have lt: "js_lt (volume_of s (fst b)) (volume_of s (fst a))"
      by (simp add: ranks_before_def js_gt_def)
    from js_sub_negative [OF lt assms(3) assms(2)] js_sub_not_positive [OF lt]
    have "js_lt (js_sub (volume_of s (fst b)) (volume_of s (fst a))) (Fin 0)"
      "\<not> js_lt (js_sub (volume_of s (fst a)) (volume_of s (fst b))) (Fin 0)"
      by (simp_all add: js_sub_swap(2))
    with False tied show ?thesis
      by (simp add: compare_pairs_unfold)
  qed
  then show "js_lt (compare_pairs s a b) (Fin 0)" and "\<not> js_lt (compare_pairs s b a) (Fin 0)"
    by simp_all
qed

section \<open>Sorts\<close>

lemma set_insert_sorted: "set (insert_sorted cmp x ys) = insert x (set ys)"
  by (induction ys) auto

lemma set_foldl_insert_sorted:
  "set (foldl (\<lambda>sorted x. insert_sorted cmp x sorted) acc xs) = set acc \<union> set xs"
  by (induction xs arbitrary: acc) (auto simp: set_insert_sorted)

lemma insertion_sort_keeps_elements: "keeps_elements insertion_sort"
  by (simp add: keeps_elements_def insertion_sort_def set_foldl_insert_sorted)

lemma insert_sorted_first:
  assumes "\<forall>y \<in> set ys. y \<noteq> a \<longrightarrow> js_lt (cmp a y) (Fin 0)"
  shows "\<exists>rest. insert_sorted cmp a ys = a # rest"
  using assms by (cases ys) auto

lemma insert_sorted_behind:
  assumes "x = a \<or> \<not> js_lt (cmp x a) (Fin 0)"
  shows "\<exists>rest'. insert_sorted cmp x (a # rest) = a # rest'"
  using assms by auto

lemma foldl_insert_sorted_keeps_first:
  assumes "\<forall>x \<in> set xs. x \<noteq> a \<longrightarrow> \<not> js_lt (cmp x a) (Fin 0)"
  shows "\<exists>rest'. foldl (\<lambda>sorted x. insert_sorted cmp x sorted) (a # rest) xs = a # rest'"
  using assms
proof (induction xs arbitrary: rest)
  case Nil
  then show ?case by simp
next
  case (Cons x xs)
  from Cons.prems have "x = a \<or> \<not> js_lt (cmp x a) (Fin 0)" by auto
  from insert_sorted_behind [of x a cmp rest, OF this] obtain r where
    "insert_sorted cmp x (a # rest) = a # r" by blast
  with Cons.IH [of r] Cons.prems show ?case by simp
qed

lemma foldl_insert_sorted_first:
  assumes "a \<in> set xs"
    and "\<forall>y \<in> set acc \<union> set xs. y \<noteq> a \<longrightarrow>
           js_lt (cmp a y) (Fin 0) \<and> \<not> js_lt (cmp y a) (Fin 0)"
  shows "\<exists>rest. foldl (\<lambda>sorted x. insert_sorted cmp x sorted) acc xs = a # rest"
  using assms
proof (induction xs arbitrary: acc)
  case Nil
  then show ?case by simp
next
  case (Cons x xs)
  show ?case
  proof (cases "x = a")
    case True
    from Cons.prems(2) have "\<forall>y \<in> set acc. y \<noteq> a \<longrightarrow> js_lt (cmp a y) (Fin 0)" by auto
    from insert_sorted_first [of acc a cmp, OF this] obtain r
      where "insert_sorted cmp a acc = a # r" by blast
    moreover from Cons.prems(2) have "\<forall>x \<in> set xs. x \<noteq> a \<longrightarrow> \<not> js_lt (cmp x a) (Fin 0)"
      by auto
    ultimately show ?thesis
      using foldl_insert_sorted_keeps_first [of xs a cmp r] True by simp
  next
    case False
    with Cons.prems(1) have "a \<in> set xs" by simp
    moreover from Cons.prems(2)
    have "\<forall>y \<in> set (insert_sorted cmp x acc) \<union> set xs. y \<noteq> a \<longrightarrow>
            js_lt (cmp a y) (Fin 0) \<and> \<not> js_lt (cmp y a) (Fin 0)"
      by (auto simp: set_insert_sorted)
    ultimately show ?thesis
      using Cons.IH [of "insert_sorted cmp x acc"] by simp
  qed
qed

lemma insertion_sort_least_first: "least_first insertion_sort"
  unfolding least_first_def strictly_first_def insertion_sort_def
  using foldl_insert_sorted_first [where acc = "[]"] by fastforce

text \<open>
  Any sort whose result holds the same elements in the comparator's order puts the
  strictly first element first: the guarantee of the language is enough.
\<close>

lemma ordered_result_first:
  assumes "set ys = set xs" and "ordered_by cmp ys" and "strictly_first cmp a xs"
  shows "\<exists>rest. ys = a # rest"
proof (cases ys)
  case Nil
  with assms show ?thesis by (simp add: strictly_first_def)
next
  case (Cons h rest)
  have "h = a"
  proof (rule ccontr)
    assume "h \<noteq> a"
    with assms(1,3) Cons have "a \<in> set rest" and "js_lt (cmp a h) (Fin 0)"
      by (auto simp: strictly_first_def)
    with assms(2) Cons show False
      by (auto simp: ordered_by_def)
  qed
  with Cons show ?thesis by simp
qed


section \<open>The estimator computes the specified score\<close>

lemma movement_loop_foldl:
  "movement_loop rel i acc =
     foldl js_add acc (map (\<lambda>j. js_abs (js_sub (price (rel ! j)) (price (rel ! (j - 1))))) [i..<length rel])"
proof (induction rel i acc rule: movement_loop.induct)
  case (1 rel i acc)
  show ?case
  proof (cases "i < length rel")
    case True
    then show ?thesis
      using "1.IH" by (subst movement_loop.simps) (simp add: upt_conv_Cons)
  next
    case False
    then show ?thesis by (subst movement_loop.simps) simp
  qed
qed

lemma consecutive_moves:
  "map (\<lambda>j. f (xs ! (j - 1)) (xs ! j)) [1..<length xs] = map2 f xs (tl xs)"
  by (rule nth_equalityI) (auto simp: nth_tl)

lemma foldl_price: "foldl (\<lambda>sum p. js_add sum (price p)) a rel = foldl js_add a (map price rel)"
  by (induction rel arbitrary: a) auto

lemma volatilityScore_spec: "volatilityScore rel = spec_score (map price rel)"
proof -
  let ?f = "\<lambda>a b. js_abs (js_sub b a)"
  have "map (\<lambda>j. js_abs (js_sub (price (rel ! j)) (price (rel ! (j - 1))))) [1..<length rel]
      = map (\<lambda>j. ?f (map price rel ! (j - 1)) (map price rel ! j)) [1..<length (map price rel)]"
    by (rule map_cong) auto
  also have "\<dots> = map2 ?f (map price rel) (tl (map price rel))"
    by (rule consecutive_moves)
  finally show ?thesis
    by (simp add: volatilityScore_def spec_score_def spec_totalMovement_def spec_avgPrice_def
        movement_loop_foldl foldl_price)
qed

lemma score_entries_lookup:
  "distinct (map fst history) \<Longrightarrow>
   map_of (score_entries t history scores) k =
     (case map_of history k of
        None \<Rightarrow> map_of scores k
      | Some prices \<Rightarrow>
          if length (relevant t prices) < 2 then map_of scores k
          else Some (volatilityScore (relevant t prices)))"
proof (induction history arbitrary: scores)
  case Nil
  then show ?case by simp
next
  case (Cons e history)
  obtain symb prices where e: "e = (symb, prices)" by (cases e)
  from Cons.prems e have fresh: "map_of history symb = None" and d: "distinct (map fst history)"
    by (auto simp: map_of_eq_None_iff)
  show ?case
    using Cons.IH [OF d] fresh
    by (auto simp: e Let_def update_conv' split: option.splits)
qed

lemma score_entries_keys:
  "fst ` set (score_entries t history scores) \<subseteq> fst ` set history \<union> fst ` set scores"
proof (induction history arbitrary: scores)
  case Nil
  then show ?case by simp
next
  case (Cons e history)
  obtain symb prices where e: "e = (symb, prices)" by (cases e)
  show ?case
    using Cons.IH [of scores] Cons.IH [of "AList.update symb (volatilityScore (relevant t prices)) scores"]
    by (auto simp: e Let_def dom_update)
qed

lemma score_entries_distinct:
  "distinct (map fst scores) \<Longrightarrow> distinct (map fst (score_entries t history scores))"
proof (induction history arbitrary: scores)
  case Nil
  then show ?case by simp
next
  case (Cons e history)
  obtain symb prices where e: "e = (symb, prices)" by (cases e)
  show ?case
    using Cons.IH Cons.prems by (simp add: e Let_def distinct_update)
qed


lemma findBestPerformer_hasError:
  "hasError (findBestPerformer sort_by s) = hasErrorThisMinute s"
  by (simp add: findBestPerformer_def Let_def split: list.splits prod.splits)

lemma findBestPerformer_winner:
  assumes "keeps_elements sort_by" and "symbol (findBestPerformer sort_by s) = Some w"
  shows "\<exists>score. (w, score) \<in> set (volatilityScores s) \<and> passes_floor s (w, score) \<and>
           moves (findBestPerformer sort_by s) = Math_round (js_mul score (Fin 100))"
proof -
  let ?top = "sort_by (compare_pairs s) (filter (passes_floor s) (volatilityScores s))"
  from assms(2) obtain score rest where top: "?top = (w, score) # rest"
    by (auto simp: findBestPerformer_def Let_def split: list.splits prod.splits)
  then have "(w, score) \<in> set ?top" by simp
  with assms(1) have "(w, score) \<in> set (filter (passes_floor s) (volatilityScores s))"
    unfolding keeps_elements_def by blast
  then have "(w, score) \<in> set (volatilityScores s)" "passes_floor s (w, score)"
    by simp_all
  moreover from top have "moves (findBestPerformer sort_by s) = Math_round (js_mul score (Fin 100))"
    by (simp add: findBestPerformer_def)
  ultimately show ?thesis by blast
qed

lemma findBestPerformer_no_winner:
  assumes "keeps_elements sort_by" and "\<forall>e \<in> set (volatilityScores s). \<not> passes_floor s e"
  shows "findBestPerformer sort_by s =
           \<lparr>symbol = None, moves = Fin 0, hasError = hasErrorThisMinute s\<rparr>"
proof -
  from assms(2) have "filter (passes_floor s) (volatilityScores s) = []"
    by (simp add: filter_empty_conv)
  moreover from assms(1) have "set (sort_by (compare_pairs s) []) = {}"
    unfolding keeps_elements_def by simp
  ultimately show ?thesis
    by (simp add: findBestPerformer_def)
qed

lemma findBestPerformer_first:
  assumes "sort_by (compare_pairs s) (filter (passes_floor s) (volatilityScores s)) = (w, score) # rest"
  shows "findBestPerformer sort_by s =
           \<lparr>symbol = Some w, moves = Math_round (js_mul score (Fin 100)),
            hasError = hasErrorThisMinute s\<rparr>"
  using assms by (simp add: findBestPerformer_def)

text \<open>With one candidate the sort has nothing to decide.\<close>

lemma single_candidate:
  assumes "keeps_elements sort_by"
    and "filter (passes_floor s) (volatilityScores s) = [(w, score)]"
  shows "findBestPerformer sort_by s =
           \<lparr>symbol = Some w, moves = Math_round (js_mul score (Fin 100)),
            hasError = hasErrorThisMinute s\<rparr>"
proof -
  let ?top = "sort_by (compare_pairs s) [(w, score)]"
  from assms(1) have set: "set ?top = {(w, score)}"
    unfolding keeps_elements_def by simp
  then obtain x rest where top: "?top = x # rest"
    by (cases ?top) auto
  with set have "x = (w, score)" by auto
  with top assms(2) show ?thesis
    by (simp add: findBestPerformer_first)
qed

lemma calculateVolatility_lookup:
  assumes "distinct (map fst (priceHistory s))"
  shows "map_of (volatilityScores (calculateVolatility now s)) symb =
     (case map_of (priceHistory s) symb of
        None \<Rightarrow> None
      | Some prices \<Rightarrow>
          if 2 \<le> length (filter (in_window now) prices)
          then Some (spec_score (map price (filter (in_window now) prices)))
          else None)"
proof -
  have w: "relevant (now - 60000) prices = filter (in_window now) prices" for prices
    by (simp add: relevant_def in_window_def [abs_def])
  show ?thesis
    using score_entries_lookup [OF assms, of "now - 60000" "[]" symb]
    by (auto simp: calculateVolatility_def Let_def w volatilityScore_spec split: option.splits)
qed

lemma calculateVolatility_distinct:
  "distinct (map fst (volatilityScores (calculateVolatility now s)))"
  using score_entries_distinct [of "[]"] by (simp add: calculateVolatility_def Let_def)

lemma calculateVolatility_discards:
  "calculateVolatility now (s\<lparr>volatilityScores := old\<rparr>) = calculateVolatility now s"
  by (simp add: calculateVolatility_def Let_def)

text \<open>
  In binary64, \<open>3 / 100 * 100\<close> is 3 again, but the prices 297 and 343 score a little
  less than 14.375, and a winner with them gets 1437 moves, not 1438.
\<close>

lemma spec_score_example: "spec_score [Fin 100, Fin 101, Fin 99] = Fin 3"
  by (simp add: spec_score_def spec_totalMovement_def spec_avgPrice_def js_sub_def js_add_def
      js_div_def js_mul_def round64_eval)

lemma moves_example: "Math_round (js_mul (Fin 3) (Fin 100)) = Fin 300"
  by (simp add: js_mul_def round64_eval)

lemma spec_score_rounded:
  "spec_score [Fin 297, Fin 343] = Fin (115 / 8 - 1 / 2 ^ 49)"
  "Math_round (js_mul (Fin (115 / 8 - 1 / 2 ^ 49)) (Fin 100)) = Fin 1437"
  by (simp_all add: spec_score_def spec_totalMovement_def spec_avgPrice_def js_sub_def js_add_def
      js_div_def js_mul_def round64_eval)

lemma example_history_scores:
  "volatilityScores (calculateVolatility 4000 example_history) =
     [(''AUSDT'', Fin 3), (''BUSDT'', Fin (115 / 8 - 1 / 2 ^ 49))]"
  by (simp add: calculateVolatility_def example_history_def relevant_def Let_def
      volatilityScore_spec spec_score_example spec_score_rounded)

lemma example_history_winner:
  "findBestPerformer insertion_sort (calculateVolatility 4000 example_history) =
     \<lparr>symbol = Some ''AUSDT'', moves = Fin 300, hasError = False\<rparr>"
proof -
  have "volumes (calculateVolatility 4000 example_history) =
          [(''AUSDT'', Fin 10045000), (''BUSDT'', Fin 5000000), (''CUSDT'', Fin 30000000)]"
    "hasErrorThisMinute (calculateVolatility 4000 example_history) = False"
    by (simp_all add: calculateVolatility_def Let_def example_history_def)
  then show ?thesis
    by (simp add: findBestPerformer_def example_history_scores passes_floor_def volume_of_def
        minVolume_def js_ge_def js_lt_def insertion_sort_def moves_example)
qed

text \<open>
  Claim C1. After \<open>calculateVolatility\<close> the score map holds a symbol exactly when its
  history has at least two samples in the trailing 60 seconds, with the score
  (sum of absolute consecutive differences / mean price) * 100 over those samples, every
  operation rounded as the code rounds it; the scores of the tick before play no part.
  Window prices 100, 101, 99 score 3, and a winner with that score gets 300 moves, whatever
  sort the engine uses, as long as it returns the elements it was given.
\<close>

theorem calculateVolatility_scores:
  assumes "distinct (map fst (priceHistory s))" and "keeps_elements sort_by"
  shows "map_of (volatilityScores (calculateVolatility now s)) symb =
           (case map_of (priceHistory s) symb of
              None \<Rightarrow> None
            | Some prices \<Rightarrow>
                if 2 \<le> length (filter (in_window now) prices)
                then Some (spec_score (map price (filter (in_window now) prices)))
                else None)
         \<and> calculateVolatility now (s\<lparr>volatilityScores := old\<rparr>) = calculateVolatility now s
         \<and> (map_of (priceHistory s) symb = Some prices \<and>
              map price (filter (in_window now) prices) = [Fin 100, Fin 101, Fin 99] \<longrightarrow>
            map_of (volatilityScores (calculateVolatility now s)) symb = Some (Fin 3) \<and>
            (symbol (findBestPerformer sort_by (calculateVolatility now s)) = Some symb \<longrightarrow>
             moves (findBestPerformer sort_by (calculateVolatility now s)) = Fin 300))"
proof (intro conjI impI)
  show "map_of (volatilityScores (calculateVolatility now s)) symb =
           (case map_of (priceHistory s) symb of
              None \<Rightarrow> None
            | Some prices \<Rightarrow>
                if 2 \<le> length (filter (in_window now) prices)
                then Some (spec_score (map price (filter (in_window now) prices)))
                else None)"
    by (rule calculateVolatility_lookup [OF assms(1)])
  show "calculateVolatility now (s\<lparr>volatilityScores := old\<rparr>) = calculateVolatility now s"
    by (rule calculateVolatility_discards)
next
  assume ex: "map_of (priceHistory s) symb = Some prices \<and>
              map price (filter (in_window now) prices) = [Fin 100, Fin 101, Fin 99]"
  then have len: "length (filter (in_window now) prices) = 3"
    using length_map [of price "filter (in_window now) prices"] by simp
  with ex show three: "map_of (volatilityScores (calculateVolatility now s)) symb = Some (Fin 3)"
    by (simp add: calculateVolatility_lookup [OF assms(1)] spec_score_example)
  assume "symbol (findBestPerformer sort_by (calculateVolatility now s)) = Some symb"
  from findBestPerformer_winner [OF assms(2) this] obtain score where
    sc: "(symb, score) \<in> set (volatilityScores (calculateVolatility now s))"
    and mv: "moves (findBestPerformer sort_by (calculateVolatility now s)) =
               Math_round (js_mul score (Fin 100))"
    by blast
  from sc three have "score = Fin 3"
    using map_of_is_SomeI [OF calculateVolatility_distinct sc] by simp
  with mv show "moves (findBestPerformer sort_by (calculateVolatility now s)) = Fin 300"
    by (simp add: moves_example)
qed

theorem calculateVolatility_scores_witness:
  "distinct (map fst (priceHistory example_history)) \<and> keeps_elements insertion_sort \<and>
   map_of (volatilityScores (calculateVolatility 4000 example_history)) ''AUSDT'' = Some (Fin 3) \<and>
   map_of (volatilityScores (calculateVolatility 4000 example_history)) ''BUSDT'' =
     Some (Fin (115 / 8 - 1 / 2 ^ 49)) \<and>
   map_of (volatilityScores (calculateVolatility 4000 example_history)) ''CUSDT'' = None \<and>
   map_of (volatilityScores (calculateVolatility 4000 example_history)) ''OLDUSDT'' = None \<and>
   symbol (findBestPerformer insertion_sort (calculateVolatility 4000 example_history)) = Some ''AUSDT'' \<and>
   moves (findBestPerformer insertion_sort (calculateVolatility 4000 example_history)) = Fin 300"
proof -
  let ?prices = "[\<lparr>price = Fin 100, timestamp = 1000\<rparr>, \<lparr>price = Fin 101, timestamp = 2000\<rparr>,
                  \<lparr>price = Fin 99, timestamp = 3000\<rparr>]"
  note k = insertion_sort_keeps_elements
  have d: "distinct (map fst (priceHistory example_history))"
    by (simp add: example_history_def)
  have h: "map_of (priceHistory example_history) ''AUSDT'' = Some ?prices \<and>
           map price (filter (in_window 4000) ?prices) = [Fin 100, Fin 101, Fin 99]"
    by (simp add: example_history_def in_window_def)
  have w: "symbol (findBestPerformer insertion_sort (calculateVolatility 4000 example_history)) =
             Some ''AUSDT''"
    by (simp add: example_history_winner)
  have a: "map_of (volatilityScores (calculateVolatility 4000 example_history)) ''AUSDT'' = Some (Fin 3)"
          "moves (findBestPerformer insertion_sort (calculateVolatility 4000 example_history)) = Fin 300"
    using calculateVolatility_scores [OF d k, of 4000 "''AUSDT''" "[]" ?prices] h w by blast+
  have b: "map_of (volatilityScores (calculateVolatility 4000 example_history)) ''BUSDT'' =
             Some (Fin (115 / 8 - 1 / 2 ^ 49))"
    using calculateVolatility_scores [OF d k, of 4000 "''BUSDT''" "[]" "[]"]
    by (simp add: example_history_def in_window_def spec_score_rounded)
  have c: "map_of (volatilityScores (calculateVolatility 4000 example_history)) ''CUSDT'' = None"
    using calculateVolatility_scores [OF d k, of 4000 "''CUSDT''" "[]" "[]"]
    by (simp add: example_history_def in_window_def)
  have o: "map_of (volatilityScores (calculateVolatility 4000 example_history)) ''OLDUSDT'' = None"
    using calculateVolatility_scores [OF d k, of 4000 "''OLDUSDT''" "[]" "[]"]
    by (simp add: example_history_def)
  from d k a b c o w show ?thesis by blast
qed


section \<open>The selector\<close>

lemma volume_of_below:
  assumes "map_of (volumes s) x = Some v" "js_lt v minVolume"
  shows "\<not> passes_floor s (x, score)"
  using assms by (simp add: passes_floor_def volume_of_def js_ge_def)

lemma Math_round_nearest:
  "\<exists>n. nearest_integer p n \<and> is_finite (Math_round (Fin p)) \<and> val (Math_round (Fin p)) = of_int n"
proof (cases "p < 0 \<and> - (1 / 2) \<le> p")
  case True
  then have "nearest_integer p 0 \<and> is_finite (Math_round (Fin p)) \<and>
             val (Math_round (Fin p)) = of_int 0"
    by (simp add: nearest_integer_def)
  then show ?thesis by blast
next
  case False
  have "nearest_integer p \<lfloor>p + 1 / 2\<rfloor>"
    unfolding nearest_integer_def by linarith
  with False have "nearest_integer p \<lfloor>p + 1 / 2\<rfloor> \<and> is_finite (Math_round (Fin p)) \<and>
             val (Math_round (Fin p)) = of_int \<lfloor>p + 1 / 2\<rfloor>"
    by auto
  then show ?thesis by blast
qed

lemma nearest_integer_unique: "nearest_integer p n \<Longrightarrow> nearest_integer p m \<Longrightarrow> n = m"
  unfolding nearest_integer_def by linarith

text \<open>
  In binary64 the literal \<open>0.015\<close> lies below 0.015, and its product with 100 is rounded up
  to 1.5, which \<open>Math.round\<close> takes to 2.
\<close>

lemma literal_example: "literal (15 / 1000) = Fin (1080863910568919 / 72057594037927936)"
  by (simp add: literal_def round64_eval)

lemma product_example:
  "round64 (1080863910568919 / 72057594037927936 * 100) = Fin (3 / 2)"
  by (simp add: round64_eval)

lemma example_floor_scores:
  "volatilityScores example_floor =
     [(''XUSDT'', Fin 9), (''YUSDT'', Fin (1080863910568919 / 72057594037927936))]"
  unfolding example_floor_def literal_example by simp

lemma example_floor_volumes:
  "volume_of example_floor ''XUSDT'' = Fin 5000000"
  "volume_of example_floor ''YUSDT'' = Fin 20000000"
  by (simp_all add: example_floor_def volume_of_def)

text \<open>
  Claim C2. A symbol whose volume is below 10,000,000 is never the winner, whatever its
  score (nor is one whose volume is missing or not a number); when no scored symbol reaches the floor the result has no symbol and 0 moves; a
  winner has reached the floor and gets \<open>Math.round(score * 100)\<close> moves: the binary64
  product of its score and 100, taken to the nearest integer, a tie going up. This holds
  whatever sort the engine uses, as long as it returns the elements it was given.
\<close>

theorem findBestPerformer_volume_floor:
  assumes "keeps_elements sort_by"
  shows "(map_of (volumes s) x = Some v \<and> js_lt v minVolume \<longrightarrow>
      symbol (findBestPerformer sort_by s) \<noteq> Some x)
   \<and> ((\<forall>e \<in> set (volatilityScores s). \<not> js_ge (volume_of s (fst e)) minVolume) \<longrightarrow>
      findBestPerformer sort_by s =
        \<lparr>symbol = None, moves = Fin 0, hasError = hasErrorThisMinute s\<rparr>)
   \<and> (symbol (findBestPerformer sort_by s) = Some w \<longrightarrow>
      js_ge (volume_of s w) minVolume \<and>
      (\<exists>score. (w, score) \<in> set (volatilityScores s) \<and>
         moves (findBestPerformer sort_by s) = Math_round (js_mul score (Fin 100)) \<and>
         (\<forall>r p. score = Fin r \<and> r \<noteq> 0 \<and> round64 (r * 100) = Fin p \<longrightarrow>
            (\<exists>n. nearest_integer p n \<and> is_finite (moves (findBestPerformer sort_by s)) \<and>
                 val (moves (findBestPerformer sort_by s)) = of_int n))))"
proof (intro conjI impI)
  assume low: "map_of (volumes s) x = Some v \<and> js_lt v minVolume"
  show "symbol (findBestPerformer sort_by s) \<noteq> Some x"
  proof
    assume "symbol (findBestPerformer sort_by s) = Some x"
    from findBestPerformer_winner [OF assms this] obtain score where "passes_floor s (x, score)"
      by blast
    with low show False
      using volume_of_below [of s x v score] by simp
  qed
next
  assume "\<forall>e \<in> set (volatilityScores s). \<not> js_ge (volume_of s (fst e)) minVolume"
  then have "\<forall>e \<in> set (volatilityScores s). \<not> passes_floor s e"
    by (simp add: passes_floor_def)
  with assms show "findBestPerformer sort_by s =
      \<lparr>symbol = None, moves = Fin 0, hasError = hasErrorThisMinute s\<rparr>"
    by (rule findBestPerformer_no_winner)
next
  assume win: "symbol (findBestPerformer sort_by s) = Some w"
  from findBestPerformer_winner [OF assms win] obtain score where
    sc: "(w, score) \<in> set (volatilityScores s)" "passes_floor s (w, score)"
        "moves (findBestPerformer sort_by s) = Math_round (js_mul score (Fin 100))"
    by blast
  from sc(2) show "js_ge (volume_of s w) minVolume"
    by (simp add: passes_floor_def)
  have "\<exists>n. nearest_integer p n \<and> is_finite (moves (findBestPerformer sort_by s)) \<and>
             val (moves (findBestPerformer sort_by s)) = of_int n"
    if "score = Fin r \<and> r \<noteq> 0 \<and> round64 (r * 100) = Fin p" for r p
  proof -
    from that have "js_mul score (Fin 100) = Fin p"
      by (simp add: js_mul_def)
    with sc(3) show ?thesis
      using Math_round_nearest [of p] by simp
  qed
  with sc show "\<exists>score. (w, score) \<in> set (volatilityScores s) \<and>
         moves (findBestPerformer sort_by s) = Math_round (js_mul score (Fin 100)) \<and>
         (\<forall>r p. score = Fin r \<and> r \<noteq> 0 \<and> round64 (r * 100) = Fin p \<longrightarrow>
            (\<exists>n. nearest_integer p n \<and> is_finite (moves (findBestPerformer sort_by s)) \<and>
                 val (moves (findBestPerformer sort_by s)) = of_int n))"
    by blast
qed

lemma example_floor_winner:
  "symbol (findBestPerformer insertion_sort example_floor) = Some ''YUSDT''"
  by (simp add: findBestPerformer_def example_floor_scores example_floor_volumes passes_floor_def
      minVolume_def js_ge_def js_lt_def insertion_sort_def)

theorem findBestPerformer_volume_floor_witness:
  "keeps_elements insertion_sort \<and>
   map_of (volumes example_floor) ''XUSDT'' = Some (Fin 5000000) \<and>
   js_lt (Fin 5000000) minVolume \<and>
   symbol (findBestPerformer insertion_sort example_floor) \<noteq> Some ''XUSDT'' \<and>
   symbol (findBestPerformer insertion_sort example_floor) = Some ''YUSDT'' \<and>
   js_ge (volume_of example_floor ''YUSDT'') minVolume \<and>
   map_of (volatilityScores example_floor) ''YUSDT'' =
     Some (Fin (1080863910568919 / 72057594037927936)) \<and>
   round64 (1080863910568919 / 72057594037927936 * 100) = Fin (3 / 2) \<and>
   nearest_integer (3 / 2) 2 \<and>
   moves (findBestPerformer insertion_sort example_floor) = Fin 2 \<and>
   findBestPerformer insertion_sort example_thin =
     \<lparr>symbol = None, moves = Fin 0, hasError = False\<rparr>"
proof -
  note k = insertion_sort_keeps_elements
  let ?y = "1080863910568919 / 72057594037927936 :: real"
  let ?m = "moves (findBestPerformer insertion_sort example_floor)"
  have low: "map_of (volumes example_floor) ''XUSDT'' = Some (Fin 5000000) \<and>
             js_lt (Fin 5000000) minVolume"
    by (simp add: example_floor_def js_lt_def minVolume_def)
  have win: "symbol (findBestPerformer insertion_sort example_floor) = Some ''YUSDT''"
    by (rule example_floor_winner)
  have thin: "\<forall>e \<in> set (volatilityScores example_thin).
                \<not> js_ge (volume_of example_thin (fst e)) minVolume"
    by (simp add: example_thin_def volume_of_def js_ge_def js_lt_def minVolume_def)
  have y: "map_of (volatilityScores example_floor) ''YUSDT'' = Some (Fin ?y)"
    by (simp add: example_floor_scores)
  have near: "nearest_integer (3 / 2) 2"
    by (simp add: nearest_integer_def)
  note floor = findBestPerformer_volume_floor
    [OF k, of example_floor "''XUSDT''" "Fin 5000000" "''YUSDT''"]
  from floor low have x: "symbol (findBestPerformer insertion_sort example_floor) \<noteq> Some ''XUSDT''"
    by blast
  from floor win have f: "js_ge (volume_of example_floor ''YUSDT'') minVolume"
    by blast
  from floor win obtain score where
    sc: "(''YUSDT'', score) \<in> set (volatilityScores example_floor)"
    and pin: "\<forall>r p. score = Fin r \<and> r \<noteq> 0 \<and> round64 (r * 100) = Fin p \<longrightarrow>
            (\<exists>n. nearest_integer p n \<and> is_finite ?m \<and> val ?m = of_int n)"
    by blast
  from sc have "score = Fin ?y"
    by (simp add: example_floor_scores)
  moreover have "?y \<noteq> 0" by simp
  moreover note product_example
  ultimately have "\<exists>n. nearest_integer (3 / 2) n \<and> is_finite ?m \<and> val ?m = of_int n"
    using pin by blast
  then obtain n where
    n: "nearest_integer (3 / 2) n" "is_finite ?m" "val ?m = of_int n"
    by blast
  from n(1) near have "n = 2" by (rule nearest_integer_unique)
  with n have m: "?m = Fin 2"
    by (cases ?m) simp_all
  from findBestPerformer_volume_floor [OF k, of example_thin "[]" NaN "[]"] thin
  have none: "findBestPerformer insertion_sort example_thin =
             \<lparr>symbol = None, moves = Fin 0, hasError = False\<rparr>"
    by (simp add: example_thin_def)
  from k low x win f y product_example near m none show ?thesis by blast
qed

subsection \<open>Ties\<close>

lemma strictly_first_wins:
  assumes "least_first sort_by"
    and "strictly_first (compare_pairs s) (a, sa) (filter (passes_floor s) (volatilityScores s))"
  shows "symbol (findBestPerformer sort_by s) = Some a"
proof -
  from assms obtain rest where
    "sort_by (compare_pairs s) (filter (passes_floor s) (volatilityScores s)) = (a, sa) # rest"
    unfolding least_first_def by blast
  then show ?thesis
    by (simp add: findBestPerformer_first)
qed

text \<open>
  Claim C3, as amended. Of two symbols that reach the floor and whose scores are tied, the
  one with the larger volume is the winner, wherever the two stand in the score map,
  provided it also goes before every other symbol that reaches the floor: by a score higher
  by more than the tolerance, or by a tied score and a larger volume. Two scores are tied
  when their binary64 difference is not above the binary64 value of \<open>0.0001\<close>, as it is
  for any two scores that differ by at most 0.0001 (lemma \<open>within_tolerance_tied\<close>). The volumes
  are binary64 values, and the sort is any that puts first an element which the comparator
  puts strictly before all others.
\<close>

theorem tie_break_larger_volume:
  assumes sorter: "least_first sort_by"
    and a: "(a, sa) \<in> set (volatilityScores s)"
    and b: "(b, sb) \<in> set (volatilityScores s)"
    and floor_a: "js_ge (volume_of s a) minVolume"
    and floor_b: "js_ge (volume_of s b) minVolume"
    and tied: "\<not> js_gt (js_abs (js_sub sa sb)) (literal (1 / 10000))"
    and larger: "js_gt (volume_of s a) (volume_of s b)"
    and others: "\<forall>e \<in> set (volatilityScores s).
        js_ge (volume_of s (fst e)) minVolume \<longrightarrow>
        e = (a, sa) \<or> e = (b, sb) \<or> ranks_before s (a, sa) e"
    and doubles: "\<forall>e \<in> set (volatilityScores s). is_double (volume_of s (fst e))"
  shows "symbol (findBestPerformer sort_by s) = Some a"
proof -
  let ?cands = "filter (passes_floor s) (volatilityScores s)"
  from tied larger have pair: "ranks_before s (a, sa) (b, sb)"
    by (simp add: ranks_before_def)
  from a floor_a have "(a, sa) \<in> set ?cands"
    by (simp add: passes_floor_def)
  moreover have "js_lt (compare_pairs s (a, sa) y) (Fin 0) \<and>
      \<not> js_lt (compare_pairs s y (a, sa)) (Fin 0)"
    if y: "y \<in> set ?cands" "y \<noteq> (a, sa)" for y
  proof -
    from y others pair have "ranks_before s (a, sa) y"
      by (auto simp: passes_floor_def)
    moreover from a doubles have "is_double (volume_of s (fst (a, sa)))"
      by fastforce
    moreover from y doubles have "is_double (volume_of s (fst y))"
      by simp
    ultimately show ?thesis
      using ranks_before_compare [of s "(a, sa)" y] by blast
  qed
  ultimately have "strictly_first (compare_pairs s) (a, sa) ?cands"
    unfolding strictly_first_def by blast
  with sorter show ?thesis
    by (rule strictly_first_wins)
qed

text \<open>
  In \<open>example_three\<close> the third symbol goes strictly before the two tied ones, so it wins
  under every sort that meets the demand, and under the insertion sort.
\<close>

lemma example_three_candidates:
  "filter (passes_floor example_three) (volatilityScores example_three) =
     [(''AUSDT'', Fin 0), (''BUSDT'', Fin 0), (''CUSDT'', Fin 3)]"
  by (simp add: example_three_def passes_floor_def volume_of_def minVolume_def js_ge_def js_lt_def)

lemma example_three_compared:
  "compare_pairs example_three (''CUSDT'', Fin 3) (''AUSDT'', Fin 0) = Fin (- 3)"
  "compare_pairs example_three (''CUSDT'', Fin 3) (''BUSDT'', Fin 0) = Fin (- 3)"
  "compare_pairs example_three (''AUSDT'', Fin 0) (''CUSDT'', Fin 3) = Fin 3"
  "compare_pairs example_three (''BUSDT'', Fin 0) (''CUSDT'', Fin 3) = Fin 3"
  by (simp_all add: compare_pairs_def js_sub_def js_add_def tolerance_value js_gt_def js_lt_def
      round64_eval)

lemma example_three_first:
  "strictly_first (compare_pairs example_three) (''CUSDT'', Fin 3)
     (filter (passes_floor example_three) (volatilityScores example_three))"
  by (simp add: strictly_first_def example_three_candidates example_three_compared js_lt_def)

lemma example_three_any_sort:
  "least_first sort_by \<Longrightarrow> symbol (findBestPerformer sort_by example_three) = Some ''CUSDT''"
  by (rule strictly_first_wins [OF _ example_three_first])

theorem tie_break_counterexample:
  "(''AUSDT'', Fin 0) \<in> set (volatilityScores example_three) \<and>
   (''BUSDT'', Fin 0) \<in> set (volatilityScores example_three) \<and>
   js_ge (volume_of example_three ''AUSDT'') minVolume \<and>
   js_ge (volume_of example_three ''BUSDT'') minVolume \<and>
   \<not> js_gt (js_abs (js_sub (Fin 0) (Fin 0))) (literal (1 / 10000)) \<and>
   js_gt (volume_of example_three ''AUSDT'') (volume_of example_three ''BUSDT'') \<and>
   symbol (findBestPerformer insertion_sort example_three) = Some ''CUSDT'' \<and>
   symbol (findBestPerformer insertion_sort example_three) \<noteq> Some ''AUSDT''"
proof -
  have "symbol (findBestPerformer insertion_sort example_three) = Some ''CUSDT''"
    using insertion_sort_least_first example_three_first by (rule strictly_first_wins)
  then show ?thesis
    by (simp add: example_three_def volume_of_def js_ge_def js_gt_def js_lt_def minVolume_def
        js_sub_def js_add_def zero_of_def tolerance_value)
qed

theorem tie_break_larger_volume_witness:
  "least_first insertion_sort \<and>
   (''XUSDT'', Fin 0) \<in> set (volatilityScores example_tie) \<and>
   (''AUSDT'', Fin (7378697629483821 / 73786976294838206464)) \<in> set (volatilityScores example_tie) \<and>
   js_ge (volume_of example_tie ''XUSDT'') minVolume \<and>
   js_ge (volume_of example_tie ''AUSDT'') minVolume \<and>
   \<not> js_gt (js_abs (js_sub (Fin 0) (Fin (7378697629483821 / 73786976294838206464))))
       (literal (1 / 10000)) \<and>
   1 / 10000 < (7378697629483821 / 73786976294838206464 :: real) \<and>
   js_gt (volume_of example_tie ''XUSDT'') (volume_of example_tie ''AUSDT'') \<and>
   fst (hd (volatilityScores example_tie)) = ''AUSDT'' \<and>
   symbol (findBestPerformer insertion_sort example_tie) = Some ''XUSDT''"
proof -
  let ?l = "7378697629483821 / 73786976294838206464 :: real"
  note sorter = insertion_sort_least_first
  have scores: "volatilityScores example_tie =
                  [(''AUSDT'', Fin ?l), (''BUSDT'', Fin ?l), (''XUSDT'', Fin 0)]"
    unfolding example_tie_def tolerance_value by simp
  have vols: "volume_of example_tie ''AUSDT'' = Fin 20000000"
    "volume_of example_tie ''BUSDT'' = Fin 15000000"
    "volume_of example_tie ''XUSDT'' = Fin 30000000"
    by (simp_all add: example_tie_def volume_of_def)
  have a: "(''XUSDT'', Fin 0) \<in> set (volatilityScores example_tie)"
    and b: "(''AUSDT'', Fin ?l) \<in> set (volatilityScores example_tie)"
    and first: "fst (hd (volatilityScores example_tie)) = ''AUSDT''"
    by (simp_all add: scores)
  have fa: "js_ge (volume_of example_tie ''XUSDT'') minVolume"
    and fb: "js_ge (volume_of example_tie ''AUSDT'') minVolume"
    and larger: "js_gt (volume_of example_tie ''XUSDT'') (volume_of example_tie ''AUSDT'')"
    by (simp_all add: vols js_ge_def js_gt_def js_lt_def minVolume_def)
  have diff: "js_abs (js_sub (Fin 0) (Fin ?l)) = Fin ?l"
    by (simp add: js_sub_def js_add_def round64_eval)
  have tied: "\<not> js_gt (js_abs (js_sub (Fin 0) (Fin ?l))) (literal (1 / 10000))"
    by (simp add: diff tolerance_value js_gt_def js_lt_def)
  have above: "1 / 10000 < ?l"
    by simp
  have others: "\<forall>e \<in> set (volatilityScores example_tie).
      js_ge (volume_of example_tie (fst e)) minVolume \<longrightarrow>
      e = (''XUSDT'', Fin 0) \<or> e = (''AUSDT'', Fin ?l) \<or>
      ranks_before example_tie (''XUSDT'', Fin 0) e"
    by (simp add: scores vols ranks_before_def diff tolerance_value js_gt_def js_lt_def)
  have doubles: "\<forall>e \<in> set (volatilityScores example_tie). is_double (volume_of example_tie (fst e))"
    by (simp add: scores vols round64_eval)
  from tie_break_larger_volume [OF sorter a b fa fb tied larger others doubles]
    sorter a b fa fb tied above larger first
  show ?thesis by blast
qed


section \<open>Pruning\<close>

lemma update_in_place:
  "k \<notin> fst ` set xs \<Longrightarrow> AList.update k v (xs @ (k, v0) # ys) = xs @ (k, v) # ys"
  by (induction xs) auto

lemma prune_entries_done:
  assumes "distinct (map fst (done @ todo))"
  shows "prune_entries t todo
           (map (\<lambda>(symb, prices). (symb, filter (\<lambda>p. t \<le> timestamp p) prices)) done @ todo) =
         map (\<lambda>(symb, prices). (symb, filter (\<lambda>p. t \<le> timestamp p) prices)) (done @ todo)"
  using assms
proof (induction todo arbitrary: "done")
  case Nil
  then show ?case by simp
next
  case (Cons e todo)
  let ?g = "\<lambda>(symb, prices). (symb, filter (\<lambda>p. t \<le> timestamp p) prices)"
  obtain symb prices where e: "e = (symb, prices)" by (cases e)
  from Cons.prems e have fresh: "symb \<notin> fst ` set (map ?g done)"
    by (auto simp: image_iff)
  from Cons.prems have d: "distinct (map fst ((done @ [e]) @ todo))" by simp
  have "prune_entries t (e # todo) (map ?g done @ e # todo) =
        prune_entries t todo (map ?g (done @ [e]) @ todo)"
    by (simp add: e update_in_place [OF fresh])
  also have "\<dots> = map ?g ((done @ [e]) @ todo)"
    by (rule Cons.IH [OF d])
  finally show ?case by simp
qed

lemma cleanupOldData_history:
  assumes "distinct (map fst (priceHistory s))"
  shows "priceHistory (cleanupOldData now s) = spec_prune now (priceHistory s)"
  using prune_entries_done [of "[]" "priceHistory s" "now - 120000"] assms
  by (simp add: cleanupOldData_def spec_prune_def retained_def [abs_def])

lemma map_of_spec_prune:
  "map_of (spec_prune now history) symb = map_option (filter (retained now)) (map_of history symb)"
  by (induction history) (auto simp: spec_prune_def)

lemma window_after_prune:
  "filter (in_window now) (filter (retained now) prices) = filter (in_window now) prices"
  by (induction prices) (auto simp: in_window_def retained_def)

text \<open>
  Claim C9. \<open>cleanupOldData\<close> replaces every symbol's log by its samples of the trailing
  120 seconds and changes nothing else. A sample aged exactly 90 seconds stays, though it is
  outside the 60-second window, and every sample inside that window stays, so the window
  reads the same before and after.
\<close>

theorem cleanupOldData_prunes:
  assumes "distinct (map fst (priceHistory s))"
  shows "priceHistory (cleanupOldData now s) = spec_prune now (priceHistory s)
       \<and> volatilityScores (cleanupOldData now s) = volatilityScores s
       \<and> volumes (cleanupOldData now s) = volumes s
       \<and> hasErrorThisMinute (cleanupOldData now s) = hasErrorThisMinute s
       \<and> (map_of (priceHistory s) symb = Some prices \<longrightarrow>
            map_of (priceHistory (cleanupOldData now s)) symb = Some (filter (retained now) prices)
            \<and> filter (in_window now) (filter (retained now) prices) = filter (in_window now) prices
            \<and> (\<forall>p \<in> set prices. timestamp p = now - 90000 \<longrightarrow>
                  p \<in> set (filter (retained now) prices) \<and> \<not> in_window now p)
            \<and> (\<forall>p \<in> set prices. in_window now p \<longrightarrow> p \<in> set (filter (retained now) prices)))"
proof (intro conjI impI ballI)
  show h: "priceHistory (cleanupOldData now s) = spec_prune now (priceHistory s)"
    by (rule cleanupOldData_history [OF assms])
  show "volatilityScores (cleanupOldData now s) = volatilityScores s"
    and "volumes (cleanupOldData now s) = volumes s"
    and "hasErrorThisMinute (cleanupOldData now s) = hasErrorThisMinute s"
    by (simp_all add: cleanupOldData_def)
  show "filter (in_window now) (filter (retained now) prices) = filter (in_window now) prices"
    by (rule window_after_prune)
  assume "map_of (priceHistory s) symb = Some prices"
  then show "map_of (priceHistory (cleanupOldData now s)) symb = Some (filter (retained now) prices)"
    by (simp add: h map_of_spec_prune)
next
  fix p assume "p \<in> set prices" "timestamp p = now - 90000"
  then show "p \<in> set (filter (retained now) prices)" and "\<not> in_window now p"
    by (simp_all add: retained_def in_window_def)
next
  fix p assume "p \<in> set prices" "in_window now p"
  then show "p \<in> set (filter (retained now) prices)"
    by (simp add: retained_def in_window_def)
qed


theorem cleanupOldData_prunes_witness:
  "distinct (map fst (priceHistory example_aged)) \<and>
   map_of (priceHistory example_aged) ''AUSDT'' =
     Some [\<lparr>price = Fin 100, timestamp = 70000\<rparr>, \<lparr>price = Fin 101, timestamp = 110000\<rparr>,
           \<lparr>price = Fin 99, timestamp = 199000\<rparr>] \<and>
   priceHistory (cleanupOldData 200000 example_aged) =
     [(''AUSDT'', [\<lparr>price = Fin 101, timestamp = 110000\<rparr>, \<lparr>price = Fin 99, timestamp = 199000\<rparr>])] \<and>
   timestamp \<lparr>price = Fin 101, timestamp = 110000\<rparr> = 200000 - 90000 \<and>
   \<lparr>price = Fin 101, timestamp = 110000\<rparr>
     \<in> set (filter (retained 200000)
         [\<lparr>price = Fin 100, timestamp = 70000\<rparr>, \<lparr>price = Fin 101, timestamp = 110000\<rparr>,
          \<lparr>price = Fin 99, timestamp = 199000\<rparr>]) \<and>
   \<not> in_window 200000 \<lparr>price = Fin 101, timestamp = 110000\<rparr> \<and>
   in_window 200000 \<lparr>price = Fin 99, timestamp = 199000\<rparr> \<and>
   \<lparr>price = Fin 99, timestamp = 199000\<rparr>
     \<in> set (filter (retained 200000)
         [\<lparr>price = Fin 100, timestamp = 70000\<rparr>, \<lparr>price = Fin 101, timestamp = 110000\<rparr>,
          \<lparr>price = Fin 99, timestamp = 199000\<rparr>])"
proof -
  let ?old = "\<lparr>price = Fin 100, timestamp = 70000\<rparr>"
  let ?mid = "\<lparr>price = Fin 101, timestamp = 110000\<rparr>"
  let ?new = "\<lparr>price = Fin 99, timestamp = 199000\<rparr>"
  have d: "distinct (map fst (priceHistory example_aged))"
    and h: "map_of (priceHistory example_aged) ''AUSDT'' = Some [?old, ?mid, ?new]"
    by (simp_all add: example_aged_def)
  have mid: "?mid \<in> set [?old, ?mid, ?new]" "timestamp ?mid = 200000 - 90000"
    and new: "?new \<in> set [?old, ?mid, ?new]" "in_window 200000 ?new"
    by (simp_all add: in_window_def)
  note t = cleanupOldData_prunes [OF d, of 200000 "''AUSDT''" "[?old, ?mid, ?new]"]
  from t have "priceHistory (cleanupOldData 200000 example_aged) =
      spec_prune 200000 (priceHistory example_aged)"
    by blast
  then have p: "priceHistory (cleanupOldData 200000 example_aged) = [(''AUSDT'', [?mid, ?new])]"
    by (simp add: example_aged_def spec_prune_def retained_def)
  from t h mid have m: "?mid \<in> set (filter (retained 200000) [?old, ?mid, ?new])"
    "\<not> in_window 200000 ?mid"
    by blast+
  from t h new have n: "?new \<in> set (filter (retained 200000) [?old, ?mid, ?new])"
    by blast
  from d h p mid(2) m new(2) n show ?thesis by blast
qed


section \<open>Invariants of the reachable states\<close>

lemma prune_entries_keys:
  "fst ` set (prune_entries t todo history) = fst ` set history \<union> fst ` set todo"
proof (induction todo arbitrary: history)
  case Nil
  then show ?case by simp
next
  case (Cons e todo)
  obtain symb prices where e: "e = (symb, prices)" by (cases e)
  show ?case
    using Cons.IH [of "AList.update symb (filter (\<lambda>p. t \<le> timestamp p) prices) history"]
    by (auto simp: e dom_update)
qed

lemma prune_entries_distinct:
  "distinct (map fst history) \<Longrightarrow> distinct (map fst (prune_entries t todo history))"
proof (induction todo arbitrary: history)
  case Nil
  then show ?case by simp
next
  case (Cons e todo)
  obtain symb prices where e: "e = (symb, prices)" by (cases e)
  show ?case
    using Cons.IH Cons.prems by (simp add: e distinct_update)
qed

lemma record_ticker_keys:
  "fst ` set (priceHistory (record_ticker ct symb tk s)) = insert symb (fst ` set (priceHistory s))"
  "fst ` set (volumes (record_ticker ct symb tk s)) = insert symb (fst ` set (volumes s))"
  "volatilityScores (record_ticker ct symb tk s) = volatilityScores s"
  "hasErrorThisMinute (record_ticker ct symb tk s) = hasErrorThisMinute s"
  by (auto simp: record_ticker_def Let_def dom_update)

lemma record_ticker_covered: "covered s \<Longrightarrow> covered (record_ticker ct symb tk s)"
  unfolding covered_def record_ticker_keys by auto

lemma record_ticker_distinct: "distinct_keys s \<Longrightarrow> distinct_keys (record_ticker ct symb tk s)"
  by (simp add: distinct_keys_def record_ticker_def Let_def distinct_update)

lemma forEach_ticker_covered: "covered s \<Longrightarrow> covered (fst (forEach_ticker ct tks s))"
  by (induction tks arbitrary: s) (auto simp: record_ticker_covered split: option.splits)

lemma forEach_ticker_distinct: "distinct_keys s \<Longrightarrow> distinct_keys (fst (forEach_ticker ct tks s))"
  by (induction tks arbitrary: s) (auto simp: record_ticker_distinct split: option.splits)

lemma covered_flag: "covered (s\<lparr>hasErrorThisMinute := b\<rparr>) = covered s"
  by (simp add: covered_def)

lemma distinct_keys_flag: "distinct_keys (s\<lparr>hasErrorThisMinute := b\<rparr>) = distinct_keys s"
  by (simp add: distinct_keys_def)

lemma fetchTickers_covered:
  assumes "covered s"
  shows "covered (fetchTickers resp ct s)"
proof (cases resp)
  case (Rejected e)
  with assms show ?thesis by (simp add: fetchTickers_def covered_flag)
next
  case (Resolved tks)
  obtain s' thrown where f: "forEach_ticker ct tks s = (s', thrown)" by (cases "forEach_ticker ct tks s")
  with forEach_ticker_covered [OF assms, of ct tks] have "covered s'" by simp
  with Resolved f show ?thesis by (simp add: fetchTickers_def covered_flag)
qed

lemma fetchTickers_distinct:
  assumes "distinct_keys s"
  shows "distinct_keys (fetchTickers resp ct s)"
proof (cases resp)
  case (Rejected e)
  with assms show ?thesis by (simp add: fetchTickers_def distinct_keys_flag)
next
  case (Resolved tks)
  obtain s' thrown where f: "forEach_ticker ct tks s = (s', thrown)" by (cases "forEach_ticker ct tks s")
  with forEach_ticker_distinct [OF assms, of ct tks] have "distinct_keys s'" by simp
  with Resolved f show ?thesis by (simp add: fetchTickers_def distinct_keys_flag)
qed

lemma reset_covered: "covered (reset s)"
  by (simp add: covered_def reset_def)

lemma reset_distinct: "distinct_keys (reset s)"
  by (simp add: distinct_keys_def reset_def)

lemma calculateVolatility_covered:
  assumes "covered s"
  shows "covered (calculateVolatility now s)"
proof -
  have "fst ` set (score_entries (now - 60000) (priceHistory s) []) \<subseteq> fst ` set (priceHistory s)"
    using score_entries_keys [of "now - 60000" "priceHistory s" "[]"] by simp
  also from assms have "\<dots> \<subseteq> fst ` set (volumes s)"
    by (simp add: covered_def)
  finally have "fst ` set (volatilityScores (calculateVolatility now s)) \<subseteq> fst ` set (volumes s)"
    by (simp add: calculateVolatility_def Let_def)
  moreover have "priceHistory (calculateVolatility now s) = priceHistory s"
    and "volumes (calculateVolatility now s) = volumes s"
    by (simp_all add: calculateVolatility_def Let_def)
  ultimately show ?thesis
    using assms by (simp add: covered_def)
qed

lemma calculateVolatility_keeps_distinct:
  "distinct_keys s \<Longrightarrow> distinct_keys (calculateVolatility now s)"
  using score_entries_distinct [of "[]" "now - 60000" "priceHistory s"]
  by (simp add: distinct_keys_def calculateVolatility_def Let_def)

lemma cleanupOldData_covered: "covered s \<Longrightarrow> covered (cleanupOldData now s)"
  by (simp add: covered_def cleanupOldData_def prune_entries_keys)

lemma cleanupOldData_distinct: "distinct_keys s \<Longrightarrow> distinct_keys (cleanupOldData now s)"
  by (simp add: distinct_keys_def cleanupOldData_def prune_entries_distinct)

lemma reachable_covered: "reachable s \<Longrightarrow> covered s"
proof (induction rule: reachable.induct)
  case start
  show ?case by (simp add: covered_def constructor_def)
qed (simp_all add: reset_covered fetchTickers_covered calculateVolatility_covered
      cleanupOldData_covered)

lemma reachable_distinct_keys: "reachable s \<Longrightarrow> distinct_keys s"
proof (induction rule: reachable.induct)
  case start
  show ?case by (simp add: distinct_keys_def constructor_def)
qed (simp_all add: reset_distinct fetchTickers_distinct calculateVolatility_keeps_distinct
      cleanupOldData_distinct)

lemma fetchTickers_example:
  "fetchTickers (Resolved example_snapshot) currentTime s =
     record_ticker currentTime ''AUSDT''
       \<lparr>t_symbol = Some ''AUSDT'', lastPrice = Fin 100, turnover24h = Fin 10045000,
        t_fundingRate = literal (55 / 10000000)\<rparr> s"
  unfolding fetchTickers_def example_snapshot_def by (simp add: endsWith_def)

lemma score_example_flat: "spec_score [Fin 100, Fin 100] = Fin 0"
  by (simp add: spec_score_def spec_totalMovement_def spec_avgPrice_def js_sub_def js_add_def
      js_div_def js_mul_def zero_of_def round64_eval)

lemma example_reached_state:
  "example_reached =
     \<lparr>priceHistory = [(''AUSDT'', [\<lparr>price = Fin 100, timestamp = 3000\<rparr>,
                                   \<lparr>price = Fin 100, timestamp = 4000\<rparr>])],
      volatilityScores = [(''AUSDT'', Fin 0)],
      volumes = [(''AUSDT'', Fin 10045000)],
      hasErrorThisMinute = False\<rparr>"
  by (simp add: example_reached_def fetchTickers_example record_ticker_def constructor_def
      calculateVolatility_def relevant_def Let_def volatilityScore_spec score_example_flat)

text \<open>
  Claim C10. In every reachable state each symbol of the score map has an entry in the
  volumes map, so the selector never compares a missing volume with the floor. The
  invariant behind it (scores and histories only for symbols with a volume) is kept by
  \<open>fetchTickers\<close>, by \<open>reset\<close> and by \<open>calculateVolatility\<close>.
\<close>

theorem scored_symbols_have_volumes:
  "(reachable s \<longrightarrow>
      (\<forall>symb \<in> fst ` set (volatilityScores s). map_of (volumes s) symb \<noteq> None))
   \<and> (covered s \<longrightarrow>
      covered (fetchTickers resp currentTime s) \<and> covered (reset s) \<and>
      covered (calculateVolatility now s))"
proof (intro conjI impI ballI)
  fix symb assume "reachable s" "symb \<in> fst ` set (volatilityScores s)"
  then have "symb \<in> fst ` set (volumes s)"
    using reachable_covered [of s] by (auto simp: covered_def)
  then show "map_of (volumes s) symb \<noteq> None"
    by (simp add: map_of_eq_None_iff)
next
  assume "covered s"
  then show "covered (fetchTickers resp currentTime s)" and "covered (reset s)"
    and "covered (calculateVolatility now s)"
    by (simp_all add: fetchTickers_covered reset_covered calculateVolatility_covered)
qed


theorem scored_symbols_have_volumes_witness:
  "reachable example_reached \<and> covered example_reached \<and>
   volatilityScores example_reached = [(''AUSDT'', Fin 0)] \<and>
   map_of (volumes example_reached) ''AUSDT'' \<noteq> None \<and>
   covered (fetchTickers (Resolved example_snapshot) 5000 example_reached) \<and>
   covered (reset example_reached) \<and>
   covered (calculateVolatility 5001 example_reached)"
proof -
  have r: "reachable example_reached"
    unfolding example_reached_def by (intro reachable.intros)
  have v: "volatilityScores example_reached = [(''AUSDT'', Fin 0)]"
    and w: "volumes example_reached = [(''AUSDT'', Fin 10045000)]"
    and h: "priceHistory example_reached =
             [(''AUSDT'', [\<lparr>price = Fin 100, timestamp = 3000\<rparr>,
                           \<lparr>price = Fin 100, timestamp = 4000\<rparr>])]"
    by (simp_all add: example_reached_state)
  have c: "covered example_reached"
    by (simp add: covered_def v w h)
  note t = scored_symbols_have_volumes
    [of example_reached "Resolved example_snapshot" 5000 5001]
  from t r v have "map_of (volumes example_reached) ''AUSDT'' \<noteq> None"
    by simp
  with t r c v show ?thesis by blast
qed


section \<open>toFixed writes the rounded decimal\<close>

lemma digit_char_cases:
  assumes "d < 10"
  shows "digit_value (digit_char d) = d" and "is_digit (digit_char d)"
proof -
  from assms have "d \<in> {0, 1, 2, 3, 4, 5, 6, 7, 8, 9}" by auto
  then show "digit_value (digit_char d) = d" and "is_digit (digit_char d)"
    by (auto simp: digit_char_def digit_value_def is_digit_def)
qed

lemma digits_value_snoc: "digits_value (str @ [c]) = 10 * digits_value str + digit_value c"
  by (simp add: digits_value_def)

lemma decimal_reads_back: "digits_value (decimal n) = n"
proof (induction n rule: decimal.induct)
  case (1 n)
  show ?case
  proof (cases "n < 10")
    case True
    then show ?thesis
      by (subst decimal.simps) (simp add: digits_value_def digit_char_cases)
  next
    case False
    then have "digits_value (decimal (n div 10)) = n div 10" by (rule "1.IH")
    with False show ?thesis
      by (subst decimal.simps) (simp add: digits_value_snoc digit_char_cases)
  qed
qed

lemma decimal_digits: "c \<in> set (decimal n) \<Longrightarrow> is_digit c"
proof (induction n rule: decimal.induct)
  case (1 n)
  show ?case
  proof (cases "n < 10")
    case True
    with "1.prems" show ?thesis
      by (subst (asm) decimal.simps) (simp add: digit_char_cases)
  next
    case False
    with "1.prems" "1.IH" show ?thesis
      by (subst (asm) decimal.simps) (auto simp: digit_char_cases)
  qed
qed

lemma decimal_nonempty: "decimal n \<noteq> []"
  by (subst decimal.simps) simp

lemma digits_value_zeros: "digits_value (replicate k CHR ''0'' @ str) = digits_value str"
proof -
  have "foldl (\<lambda>n c. 10 * n + digit_value c) 0 (replicate k CHR ''0'') = 0"
    by (induction k) (simp_all add: digit_value_def)
  then show ?thesis by (simp add: digits_value_def)
qed
lemma toFixed_decimals:
  assumes "\<bar>r\<bar> < 10 ^ 21" and "0 < f"
  shows "decimal_places f r (toFixed f (Fin r))"
proof -
  define n where "n = nat \<lfloor>\<bar>r\<bar> * 10 ^ f + 1 / 2\<rfloor>"
  define m where "m = (if length (decimal n) \<le> f
                       then replicate (f + 1 - length (decimal n)) CHR ''0'' @ decimal n
                       else decimal n)"
  have len: "f < length m"
    by (simp add: m_def)
  have "is_digit CHR ''0''"
    by (simp add: is_digit_def)
  then have digits: "\<forall>c \<in> set m. is_digit c"
    by (auto simp: m_def decimal_digits)
  have val: "digits_value m = n"
    by (simp add: m_def digits_value_zeros decimal_reads_back)
  have out: "toFixed f (Fin r) =
      Digits ((if r < 0 then ''-'' else []) @ take (length m - f) m @ ''.'' @ drop (length m - f) m)"
    using assms by (simp add: toFixed_def fixed_digits_def Let_def n_def m_def)
  show ?thesis
    unfolding decimal_places_def out
  proof (intro exI conjI)
    show "Digits ((if r < 0 then ''-'' else []) @ take (length m - f) m @ ''.'' @ drop (length m - f) m) =
          Digits ((if r < 0 then ''-'' else []) @ take (length m - f) m @ ''.'' @ drop (length m - f) m)"
      by (rule refl)
    from len show "take (length m - f) m \<noteq> []" by auto
    from len show "length (drop (length m - f) m) = f" by simp
    from digits show "\<forall>c \<in> set (take (length m - f) m @ drop (length m - f) m). is_digit c"
      by simp
    from val show "digits_value (take (length m - f) m @ drop (length m - f) m) =
        nat \<lfloor>\<bar>r\<bar> * 10 ^ f + 1 / 2\<rfloor>"
      by (simp add: n_def)
  qed
qed

text \<open>
  The turnover 10045000 in millions is 10.045 on paper and a little less in binary64, so it
  is written \<open>10.04\<close>; the funding rate \<open>0.0000055\<close> in percent is 0.00055 on paper
  and a little more in binary64, so it is written \<open>0.0006\<close>.
\<close>

lemma turnover_example:
  "round64 (10045000 / 1000000) = Fin (5654832282117079 / 562949953421312)"
  "js_div (Fin 10045000) (Fin 1000000) = Fin (5654832282117079 / 562949953421312)"
  by (simp_all add: js_div_def round64_eval)

lemma toFixed_example_turnover:
  "toFixed 2 (Fin (5654832282117079 / 562949953421312)) = Digits ''10.04''"
proof -
  have "\<lfloor>\<bar>5654832282117079 / 562949953421312 :: real\<bar> * 10 ^ 2 + 1 / 2\<rfloor> = 1004"
    by (simp add: floor_eq_iff)
  moreover have "\<bar>5654832282117079 / 562949953421312 :: real\<bar> < 10 ^ 21" by simp
  moreover have "decimal 1004 = ''1004''"
    by (simp add: decimal.simps digit_char_def)
  ultimately show ?thesis
    by (simp add: toFixed_def fixed_digits_def Let_def)
qed

lemma rate_literal_example:
  "literal (55 / 10000000) = Fin (3246626956972881 / 590295810358705651712)"
  by (simp add: literal_def round64_eval)

lemma rate_example:
  "round64 (3246626956972881 / 590295810358705651712 * 100) =
     Fin (5072854620270127 / 9223372036854775808)"
  by (simp add: round64_eval)

lemma toFixed_example_rate:
  "toFixed 4 (Fin (5072854620270127 / 9223372036854775808)) = Digits ''0.0006''"
proof -
  have "\<lfloor>\<bar>5072854620270127 / 9223372036854775808 :: real\<bar> * 10 ^ 4 + 1 / 2\<rfloor> = 6"
    by (simp add: floor_eq_iff)
  moreover have "decimal 6 = ''6''"
    by (simp add: decimal.simps digit_char_def)
  moreover have "replicate 4 CHR ''0'' = ''0000''"
    by (simp add: eval_nat_numeral)
  ultimately show ?thesis
    by (simp add: toFixed_def fixed_digits_def Let_def)
qed



section \<open>The tick\<close>

lemma run_steps_Nil: "run_steps [] s = s"
  by (simp add: run_steps_def)

lemma accumulate_at_59:
  "tick_seconds t = 59 \<Longrightarrow> accumulate t s = \<lparr>after = s, effects = [], raised = None\<rparr>"
  by (simp add: accumulate_def)

lemma after_accumulate:
  "after (accumulate t s) =
     (if tick_seconds t < 59
      then calculateVolatility (tick_now t)
             (run_steps (tick_before_estimate t)
                (fetchTickers (tick_fetch t) (tick_fetchTime t)
                   (run_steps (tick_during_fetch t) (if tick_seconds t = 0 then reset s else s))))
      else s)"
  by (simp add: accumulate_def)

lemma after_processMinute:
  "after (processMinute sort_by t s) =
     (if tick_seconds t < 59
      then calculateVolatility (tick_now t)
             (run_steps (tick_before_estimate t)
                (fetchTickers (tick_fetch t) (tick_fetchTime t)
                   (run_steps (tick_during_fetch t) (if tick_seconds t = 0 then reset s else s))))
      else s)"
  by (simp add: processMinute_def Let_def after_accumulate)

lemma after_processMinute_part000:
  "after (processMinute_part000 sort_by t s) = after (processMinute sort_by t s)"
  by (simp add: processMinute_part000_def Let_def after_accumulate after_processMinute
      split: response.splits option.splits)

text \<open>The selector reads the scores, the volumes and the flag, and nothing else.\<close>

lemma findBestPerformer_reads:
  assumes "volatilityScores s' = volatilityScores s" and "volumes s' = volumes s"
  shows "findBestPerformer sort_by s' =
           (findBestPerformer sort_by s)\<lparr>hasError := hasErrorThisMinute s'\<rparr>"
proof -
  from assms(2) have v: "volume_of s' = volume_of s"
    by (intro ext) (simp add: volume_of_def)
  have "passes_floor s' = passes_floor s" and "compare_pairs s' = compare_pairs s"
    by (intro ext, simp add: passes_floor_def compare_pairs_def v Let_def split: prod.splits)+
  with assms(1) show ?thesis
    by (simp add: findBestPerformer_def split: list.splits prod.splits)
qed

lemma example_scored_winner:
  "findBestPerformer insertion_sort example_scored =
     \<lparr>symbol = Some ''AUSDT'', moves = Fin 300, hasError = False\<rparr>"
  by (simp add: example_scored_def example_history_winner)

text \<open>In the scored example only one symbol reaches the floor, so every sort gives the same winner.\<close>

lemma example_scored_any_sort:
  assumes "keeps_elements sort_by"
  shows "findBestPerformer sort_by example_scored =
           \<lparr>symbol = Some ''AUSDT'', moves = Fin 300, hasError = False\<rparr>"
proof -
  have v: "volumes example_scored =
          [(''AUSDT'', Fin 10045000), (''BUSDT'', Fin 5000000), (''CUSDT'', Fin 30000000)]"
    and e: "hasErrorThisMinute example_scored = False"
    by (simp_all add: example_scored_def calculateVolatility_def Let_def example_history_def)
  have "filter (passes_floor example_scored) (volatilityScores example_scored) = [(''AUSDT'', Fin 3)]"
    unfolding example_scored_def example_history_scores
    by (simp add: passes_floor_def volume_of_def v [unfolded example_scored_def] minVolume_def
        js_ge_def js_lt_def)
  from single_candidate [OF assms this] e show ?thesis
    by (simp add: moves_example)
qed

lemma example_failed_winner:
  "findBestPerformer insertion_sort example_failed =
     \<lparr>symbol = Some ''AUSDT'', moves = Fin 300, hasError = True\<rparr>"
  using findBestPerformer_reads [of example_failed example_scored insertion_sort]
  by (simp add: example_failed_def example_scored_winner)

text \<open>
  Claim C4. When the flag is set at the tick of second 59, that tick emits no event, in
  either file, whatever the selector found.
\<close>

theorem finalize_suppressed_by_error:
  assumes "hasErrorThisMinute s" and "tick_seconds t = 59"
  shows "(\<forall>result. Emit result \<notin> set (effects (processMinute sort_by t s))) \<and>
         (\<forall>event. Emit event \<notin> set (effects (processMinute_part000 sort_by t s)))"
  using assms
  by (simp add: processMinute_def processMinute_part000_def accumulate_at_59
      findBestPerformer_hasError Let_def)

theorem finalize_suppressed_by_error_witness:
  "hasErrorThisMinute example_failed \<and> tick_seconds (example_tick 59) = 59 \<and>
   symbol (findBestPerformer insertion_sort example_failed) = Some ''AUSDT'' \<and>
   moves (findBestPerformer insertion_sort example_failed) = Fin 300 \<and>
   (\<forall>result. Emit result \<notin> set (effects (processMinute insertion_sort (example_tick 59) example_failed))) \<and>
   (\<forall>event. Emit event \<notin>
      set (effects (processMinute_part000 insertion_sort (example_tick 59) example_failed)))"
proof -
  have e: "hasErrorThisMinute example_failed"
    by (simp add: example_failed_def)
  have t: "tick_seconds (example_tick 59) = 59"
    by (simp add: example_tick_def)
  have w: "symbol (findBestPerformer insertion_sort example_failed) = Some ''AUSDT''"
          "moves (findBestPerformer insertion_sort example_failed) = Fin 300"
    by (simp_all add: example_failed_winner)
  from finalize_suppressed_by_error [OF e t, of insertion_sort] e t w show ?thesis by blast
qed

subsection \<open>Reset\<close>

lemma reset_constructor: "reset s = constructor"
  by (simp add: reset_def constructor_def)

text \<open>
  Claim C5, as amended. \<open>reset\<close> empties the score map and clears the flag, and it also
  empties the price history and the volumes: the state is the constructor's again.
\<close>

theorem reset_clears_history:
  "volatilityScores (reset s) = [] \<and> \<not> hasErrorThisMinute (reset s) \<and>
   priceHistory (reset s) = [] \<and> volumes (reset s) = [] \<and> reset s = constructor"
  by (simp add: reset_def constructor_def)

theorem reset_keeps_history_counterexample:
  "priceHistory (reset example_history) \<noteq> priceHistory example_history"
  by (simp add: reset_def example_history_def)

text \<open>
  So the state a tick of second 0 leaves behind owes nothing to the state it found, whatever
  the other ticks do meanwhile.
\<close>

lemma second_0_forgets:
  assumes "tick_seconds t = 0"
  shows "after (processMinute sort_by t s) = after (processMinute sort_by t constructor)"
    and "after (processMinute_part000 sort_by t s) = after (processMinute_part000 sort_by t constructor)"
  using assms
  by (simp_all add: after_processMinute_part000 after_processMinute reset_constructor)

subsection \<open>What a tick does\<close>

lemma effects_accumulate:
  "effects (accumulate t s) =
     (if tick_seconds t = 0 then [Reset] else []) @
     (if tick_seconds t < 59 then [Fetch, Estimate] else [])"
  by (simp add: accumulate_def)

lemma effects_processMinute:
  "effects (processMinute sort_by t s) =
     (if tick_seconds t = 0 then [Reset] else []) @
     (if tick_seconds t < 59 then [Fetch, Estimate] else []) @
     (if tick_seconds t = 59
      then (if \<not> hasErrorThisMinute s \<and> truthy (symbol (findBestPerformer sort_by s))
            then [Select, Emit (findBestPerformer sort_by s)] else [Select])
      else [])"
  by (simp add: processMinute_def Let_def effects_accumulate after_accumulate
      findBestPerformer_hasError)

lemma effects_processMinute_part000_before:
  "tick_seconds t \<noteq> 59 \<Longrightarrow>
   effects (processMinute_part000 sort_by t s) =
     (if tick_seconds t = 0 then [Reset] else []) @
     (if tick_seconds t < 59 then [Fetch, Estimate] else [])"
  by (simp add: processMinute_part000_def Let_def effects_accumulate)

lemma effects_processMinute_part000_at_59:
  assumes "tick_seconds t = 59"
  shows "effects (processMinute_part000 sort_by t s) =
     (if \<not> hasErrorThisMinute s \<and> truthy (symbol (findBestPerformer sort_by s))
      then (case tick_lookup t of
              Rejected e \<Rightarrow> [Select, Lookup]
            | Resolved tks \<Rightarrow>
                (case find (\<lambda>tk. t_symbol tk = symbol (findBestPerformer sort_by s)) tks of
                   None \<Rightarrow> [Select, Lookup]
                 | Some tk \<Rightarrow>
                     [Select, Lookup,
                      Emit \<lparr>p_symbol = symbol (findBestPerformer sort_by s),
                            p_moves = moves (findBestPerformer sort_by s),
                            turnover = toFixed 2 (js_div (turnover24h tk) (Fin 1000000)),
                            fundingRate = toFixed 4 (js_mul (t_fundingRate tk) (Fin 100))\<rparr>]))
      else [Select])"
  using assms
  by (simp add: processMinute_part000_def Let_def effects_accumulate after_accumulate
      findBestPerformer_hasError split: response.splits option.splits)

lemma example_snapshot_first:
  "hd example_snapshot =
     \<lparr>t_symbol = Some ''AUSDT'', lastPrice = Fin 100, turnover24h = Fin 10045000,
      t_fundingRate = Fin (3246626956972881 / 590295810358705651712)\<rparr>"
  "find (\<lambda>tk. t_symbol tk = Some ''AUSDT'') example_snapshot = Some (hd example_snapshot)"
  unfolding example_snapshot_def rate_literal_example by simp_all

lemma fetchTickers_snapshot:
  "fetchTickers (Resolved example_snapshot) currentTime s =
     record_ticker currentTime ''AUSDT'' (hd example_snapshot) s"
  unfolding fetchTickers_def example_snapshot_def by (simp add: endsWith_def)

lemma example_tick_0:
  "priceHistory (after (processMinute insertion_sort (example_tick 0) example_history)) =
     [(''AUSDT'', [\<lparr>price = Fin 100, timestamp = 4000\<rparr>])]"
  by (simp add: after_processMinute example_tick_def run_steps_Nil fetchTickers_snapshot
      example_snapshot_first record_ticker_def reset_def calculateVolatility_def Let_def)

text \<open>
  Claim C6, as amended. A tick calls the fetcher and then the estimator exactly when the
  second is below 59, that is in 0 to 58: the tick of second 0 resets and then fetches and
  estimates, the ticks of seconds 1 to 58 fetch and estimate, and the tick of second 59 only
  selects and, at most, emits. The fetcher acts on the state that the ticks started
  meanwhile have left; when none interferes, on the state the tick found or reset.
\<close>

theorem tick_schedule:
  "(Fetch \<in> set (effects (processMinute sort_by t s)) \<longleftrightarrow> tick_seconds t < 59) \<and>
   (Estimate \<in> set (effects (processMinute sort_by t s)) \<longleftrightarrow> tick_seconds t < 59) \<and>
   (Fetch \<in> set (effects (processMinute_part000 sort_by t s)) \<longleftrightarrow> tick_seconds t < 59) \<and>
   (Estimate \<in> set (effects (processMinute_part000 sort_by t s)) \<longleftrightarrow> tick_seconds t < 59) \<and>
   (tick_seconds t = 0 \<longrightarrow>
      effects (processMinute sort_by t s) = [Reset, Fetch, Estimate] \<and>
      after (processMinute sort_by t s) =
        calculateVolatility (tick_now t)
          (run_steps (tick_before_estimate t)
             (fetchTickers (tick_fetch t) (tick_fetchTime t)
                (run_steps (tick_during_fetch t) (reset s)))) \<and>
      (tick_during_fetch t = [] \<and> tick_before_estimate t = [] \<longrightarrow>
         after (processMinute sort_by t s) =
           calculateVolatility (tick_now t)
             (fetchTickers (tick_fetch t) (tick_fetchTime t) (reset s)))) \<and>
   (0 < tick_seconds t \<and> tick_seconds t < 59 \<longrightarrow>
      effects (processMinute sort_by t s) = [Fetch, Estimate] \<and>
      after (processMinute sort_by t s) =
        calculateVolatility (tick_now t)
          (run_steps (tick_before_estimate t)
             (fetchTickers (tick_fetch t) (tick_fetchTime t)
                (run_steps (tick_during_fetch t) s))) \<and>
      (tick_during_fetch t = [] \<and> tick_before_estimate t = [] \<longrightarrow>
         after (processMinute sort_by t s) =
           calculateVolatility (tick_now t) (fetchTickers (tick_fetch t) (tick_fetchTime t) s))) \<and>
   (tick_seconds t = 59 \<longrightarrow>
      after (processMinute sort_by t s) = s \<and>
      (effects (processMinute sort_by t s) = [Select] \<or>
       effects (processMinute sort_by t s) = [Select, Emit (findBestPerformer sort_by s)]))"
proof -
  have "Fetch \<in> set (effects (processMinute_part000 sort_by t s)) \<longleftrightarrow> tick_seconds t < 59"
    and "Estimate \<in> set (effects (processMinute_part000 sort_by t s)) \<longleftrightarrow> tick_seconds t < 59"
    by (cases "tick_seconds t = 59";
        simp add: effects_processMinute_part000_before effects_processMinute_part000_at_59
          split: response.splits option.splits)+
  then show ?thesis
    by (simp add: effects_processMinute after_processMinute run_steps_Nil)
qed

theorem tick_schedule_witness:
  "tick_seconds (example_tick 0) = 0 \<and>
   effects (processMinute insertion_sort (example_tick 0) example_history) = [Reset, Fetch, Estimate] \<and>
   tick_during_fetch (example_tick 0) = [] \<and> tick_before_estimate (example_tick 0) = [] \<and>
   after (processMinute insertion_sort (example_tick 0) example_history) =
     calculateVolatility 4001 (fetchTickers (Resolved example_snapshot) 4000 (reset example_history)) \<and>
   0 < tick_seconds (example_tick 30) \<and> tick_seconds (example_tick 30) < 59 \<and>
   effects (processMinute insertion_sort (example_tick 30) example_history) = [Fetch, Estimate] \<and>
   tick_seconds (example_tick 59) = 59 \<and>
   after (processMinute insertion_sort (example_tick 59) example_scored) = example_scored \<and>
   Fetch \<notin> set (effects (processMinute insertion_sort (example_tick 59) example_scored)) \<and>
   Estimate \<notin> set (effects (processMinute insertion_sort (example_tick 59) example_scored)) \<and>
   tick_seconds example_overlap = 0 \<and>
   after (processMinute insertion_sort example_overlap example_history) =
     calculateVolatility 4001
       (fetchTickers (Resolved example_snapshot) 4000
          (fetchTickers (Resolved example_snapshot) 3990 (reset example_history)))"
proof -
  have s: "tick_seconds (example_tick 0) = 0" "0 < tick_seconds (example_tick 30)"
    "tick_seconds (example_tick 30) < 59" "tick_seconds (example_tick 59) = 59"
    "tick_seconds example_overlap = 0"
    and q: "tick_during_fetch (example_tick 0) = []" "tick_before_estimate (example_tick 0) = []"
    by (simp_all add: example_tick_def example_overlap_def)
  have v: "tick_now (example_tick 0) = 4001" "tick_fetchTime (example_tick 0) = 4000"
    "tick_fetch (example_tick 0) = Resolved example_snapshot"
    "tick_now example_overlap = 4001" "tick_fetchTime example_overlap = 4000"
    "tick_fetch example_overlap = Resolved example_snapshot"
    "run_steps (tick_during_fetch example_overlap) (reset example_history) =
       fetchTickers (Resolved example_snapshot) 3990 (reset example_history)"
    "tick_before_estimate example_overlap = []"
    by (simp_all add: example_tick_def example_overlap_def run_steps_def)
  from tick_schedule [of insertion_sort "example_tick 0" example_history]
    tick_schedule [of insertion_sort "example_tick 30" example_history]
    tick_schedule [of insertion_sort "example_tick 59" example_scored]
    tick_schedule [of insertion_sort example_overlap example_history] s q
  show ?thesis by (simp add: v run_steps_Nil)
qed

theorem tick_reset_only_counterexample:
  "tick_seconds (example_tick 0) = 0 \<and>
   Fetch \<in> set (effects (processMinute insertion_sort (example_tick 0) example_history)) \<and>
   Estimate \<in> set (effects (processMinute insertion_sort (example_tick 0) example_history)) \<and>
   after (processMinute insertion_sort (example_tick 0) example_history) \<noteq> reset example_history"
proof -
  have "after (processMinute insertion_sort (example_tick 0) example_history) \<noteq> reset example_history"
    using example_tick_0 by (auto simp: reset_def)
  then show ?thesis
    by (simp add: effects_processMinute example_tick_def)
qed

subsection \<open>The event\<close>

text \<open>
  Claim C7, as amended. At second 59, with a winner and the flag clear: \<open>server.js\<close> emits
  the selector's result as it is and reads nothing more; the second file reads the tickers
  once more and, when the read succeeds and lists the winner, emits the winner's symbol, its
  moves (the integer nearest to the binary64 product of score and 100, a tie going up), its
  turnover in millions with 2 decimals and its funding rate in percent with 4 decimals. The
  decimals are those of the binary64 quotient and product, below the size where \<open>toFixed\<close>
  changes notation. The sort is any that returns the elements it was given.
\<close>

theorem finalize_publishes:
  assumes "keeps_elements sort_by" and "tick_seconds t = 59" and "\<not> hasErrorThisMinute s"
    and "symbol (findBestPerformer sort_by s) = Some w" and "w \<noteq> []"
  shows "effects (processMinute sort_by t s) = [Select, Emit (findBestPerformer sort_by s)] \<and>
         length (filter (\<lambda>e. e = Lookup) (effects (processMinute_part000 sort_by t s))) = 1 \<and>
         (\<exists>score. (w, score) \<in> set (volatilityScores s) \<and>
            moves (findBestPerformer sort_by s) = Math_round (js_mul score (Fin 100)) \<and>
            (\<forall>r p. score = Fin r \<and> r \<noteq> 0 \<and> round64 (r * 100) = Fin p \<longrightarrow>
               (\<exists>n. nearest_integer p n \<and> is_finite (moves (findBestPerformer sort_by s)) \<and>
                    val (moves (findBestPerformer sort_by s)) = of_int n))) \<and>
         (tick_lookup t = Resolved tks \<and> find (\<lambda>tk. t_symbol tk = Some w) tks = Some tk \<longrightarrow>
            effects (processMinute_part000 sort_by t s) =
              [Select, Lookup,
               Emit \<lparr>p_symbol = Some w, p_moves = moves (findBestPerformer sort_by s),
                     turnover = toFixed 2 (js_div (turnover24h tk) (Fin 1000000)),
                     fundingRate = toFixed 4 (js_mul (t_fundingRate tk) (Fin 100))\<rparr>] \<and>
            raised (processMinute_part000 sort_by t s) = None \<and>
            (\<forall>v q. turnover24h tk = Fin v \<and> v \<noteq> 0 \<and> round64 (v / 1000000) = Fin q \<and>
                   \<bar>q\<bar> < 10 ^ 21 \<longrightarrow>
               decimal_places 2 q (toFixed 2 (js_div (turnover24h tk) (Fin 1000000)))) \<and>
            (\<forall>r q. t_fundingRate tk = Fin r \<and> r \<noteq> 0 \<and> round64 (r * 100) = Fin q \<and>
                   \<bar>q\<bar> < 10 ^ 21 \<longrightarrow>
               decimal_places 4 q (toFixed 4 (js_mul (t_fundingRate tk) (Fin 100)))))"
proof (intro conjI impI allI)
  from assms have pub: "\<not> hasErrorThisMinute s \<and> truthy (symbol (findBestPerformer sort_by s))"
    by (simp add: truthy_def)
  with assms(2) show "effects (processMinute sort_by t s) = [Select, Emit (findBestPerformer sort_by s)]"
    by (simp add: effects_processMinute)
  from pub assms(2)
  show "length (filter (\<lambda>e. e = Lookup) (effects (processMinute_part000 sort_by t s))) = 1"
    by (simp add: effects_processMinute_part000_at_59 split: response.splits option.splits)
  from findBestPerformer_winner [OF assms(1,4)] obtain score where
    sc: "(w, score) \<in> set (volatilityScores s)"
        "moves (findBestPerformer sort_by s) = Math_round (js_mul score (Fin 100))"
    by blast
  have "\<exists>n. nearest_integer p n \<and> is_finite (moves (findBestPerformer sort_by s)) \<and>
             val (moves (findBestPerformer sort_by s)) = of_int n"
    if "score = Fin r \<and> r \<noteq> 0 \<and> round64 (r * 100) = Fin p" for r p
  proof -
    from that have "js_mul score (Fin 100) = Fin p"
      by (simp add: js_mul_def)
    with sc(2) show ?thesis
      using Math_round_nearest [of p] by simp
  qed
  with sc show "\<exists>score. (w, score) \<in> set (volatilityScores s) \<and>
            moves (findBestPerformer sort_by s) = Math_round (js_mul score (Fin 100)) \<and>
            (\<forall>r p. score = Fin r \<and> r \<noteq> 0 \<and> round64 (r * 100) = Fin p \<longrightarrow>
               (\<exists>n. nearest_integer p n \<and> is_finite (moves (findBestPerformer sort_by s)) \<and>
                    val (moves (findBestPerformer sort_by s)) = of_int n))"
    by blast
next
  assume look: "tick_lookup t = Resolved tks \<and> find (\<lambda>tk. t_symbol tk = Some w) tks = Some tk"
  from assms have pub: "\<not> hasErrorThisMinute s \<and> truthy (symbol (findBestPerformer sort_by s))"
    by (simp add: truthy_def)
  with assms(2,4) look show "effects (processMinute_part000 sort_by t s) =
              [Select, Lookup,
               Emit \<lparr>p_symbol = Some w, p_moves = moves (findBestPerformer sort_by s),
                     turnover = toFixed 2 (js_div (turnover24h tk) (Fin 1000000)),
                     fundingRate = toFixed 4 (js_mul (t_fundingRate tk) (Fin 100))\<rparr>]"
    by (simp add: effects_processMinute_part000_at_59)
  from assms(2,4) look pub show "raised (processMinute_part000 sort_by t s) = None"
    by (simp add: processMinute_part000_def Let_def accumulate_at_59 findBestPerformer_hasError)
next
  fix v q assume v: "turnover24h tk = Fin v \<and> v \<noteq> 0 \<and> round64 (v / 1000000) = Fin q \<and>
                   \<bar>q\<bar> < 10 ^ 21"
  then have "js_div (turnover24h tk) (Fin 1000000) = Fin q"
    by (simp add: js_div_def)
  with v toFixed_decimals [of q 2]
  show "decimal_places 2 q (toFixed 2 (js_div (turnover24h tk) (Fin 1000000)))"
    by simp
next
  fix r q assume r: "t_fundingRate tk = Fin r \<and> r \<noteq> 0 \<and> round64 (r * 100) = Fin q \<and>
                   \<bar>q\<bar> < 10 ^ 21"
  then have "js_mul (t_fundingRate tk) (Fin 100) = Fin q"
    by (simp add: js_mul_def)
  with r toFixed_decimals [of q 4]
  show "decimal_places 4 q (toFixed 4 (js_mul (t_fundingRate tk) (Fin 100)))"
    by simp
qed

theorem finalize_publishes_witness:
  "keeps_elements insertion_sort \<and>
   tick_seconds (example_tick 59) = 59 \<and> \<not> hasErrorThisMinute example_scored \<and>
   symbol (findBestPerformer insertion_sort example_scored) = Some ''AUSDT'' \<and>
   tick_lookup (example_tick 59) = Resolved example_snapshot \<and>
   find (\<lambda>tk. t_symbol tk = Some ''AUSDT'') example_snapshot = Some (hd example_snapshot) \<and>
   turnover24h (hd example_snapshot) = Fin 10045000 \<and>
   round64 (10045000 / 1000000) = Fin (5654832282117079 / 562949953421312) \<and>
   t_fundingRate (hd example_snapshot) = Fin (3246626956972881 / 590295810358705651712) \<and>
   round64 (3246626956972881 / 590295810358705651712 * 100) =
     Fin (5072854620270127 / 9223372036854775808) \<and>
   effects (processMinute_part000 insertion_sort (example_tick 59) example_scored) =
     [Select, Lookup,
      Emit \<lparr>p_symbol = Some ''AUSDT'', p_moves = Fin 300,
            turnover = Digits ''10.04'', fundingRate = Digits ''0.0006''\<rparr>] \<and>
   decimal_places 2 (5654832282117079 / 562949953421312) (Digits ''10.04'') \<and>
   decimal_places 4 (5072854620270127 / 9223372036854775808) (Digits ''0.0006'')"
proof -
  let ?q = "5654832282117079 / 562949953421312 :: real"
  let ?r = "3246626956972881 / 590295810358705651712 :: real"
  let ?p = "5072854620270127 / 9223372036854775808 :: real"
  note k = insertion_sort_keeps_elements
  have sec: "tick_seconds (example_tick 59) = 59"
    and look: "tick_lookup (example_tick 59) = Resolved example_snapshot \<and>
               find (\<lambda>tk. t_symbol tk = Some ''AUSDT'') example_snapshot = Some (hd example_snapshot)"
    by (simp_all add: example_tick_def example_snapshot_first(2))
  have ok: "\<not> hasErrorThisMinute example_scored"
    by (simp add: example_scored_def calculateVolatility_def Let_def example_history_def)
  have win: "symbol (findBestPerformer insertion_sort example_scored) = Some ''AUSDT''"
    and mv: "moves (findBestPerformer insertion_sort example_scored) = Fin 300"
    and name: "''AUSDT'' \<noteq> []"
    by (simp_all add: example_scored_winner)
  have tv: "turnover24h (hd example_snapshot) = Fin 10045000"
    and tr: "t_fundingRate (hd example_snapshot) = Fin ?r"
    by (simp_all add: example_snapshot_first(1))
  have tk: "turnover24h (hd example_snapshot) = Fin 10045000 \<and> (10045000 :: real) \<noteq> 0 \<and>
            round64 (10045000 / 1000000) = Fin ?q \<and> \<bar>?q\<bar> < 10 ^ 21"
    using tv turnover_example(1) by simp
  have rt: "t_fundingRate (hd example_snapshot) = Fin ?r \<and> ?r \<noteq> 0 \<and>
            round64 (?r * 100) = Fin ?p \<and> \<bar>?p\<bar> < 10 ^ 21"
    using tr rate_example by simp
  have "js_div (turnover24h (hd example_snapshot)) (Fin 1000000) = Fin ?q"
    unfolding tv by (rule turnover_example(2))
  then have str2: "toFixed 2 (js_div (turnover24h (hd example_snapshot)) (Fin 1000000)) = Digits ''10.04''"
    by (simp only: toFixed_example_turnover)
  have "js_mul (t_fundingRate (hd example_snapshot)) (Fin 100) = Fin ?p"
    unfolding tr using rate_example by (simp add: js_mul_def)
  then have str4: "toFixed 4 (js_mul (t_fundingRate (hd example_snapshot)) (Fin 100)) = Digits ''0.0006''"
    by (simp only: toFixed_example_rate)
  note t = finalize_publishes [OF k sec ok win name, of example_snapshot "hd example_snapshot"]
  from t look have eff: "effects (processMinute_part000 insertion_sort (example_tick 59) example_scored) =
     [Select, Lookup,
      Emit \<lparr>p_symbol = Some ''AUSDT'',
            p_moves = moves (findBestPerformer insertion_sort example_scored),
            turnover = toFixed 2 (js_div (turnover24h (hd example_snapshot)) (Fin 1000000)),
            fundingRate = toFixed 4 (js_mul (t_fundingRate (hd example_snapshot)) (Fin 100))\<rparr>]"
    by blast
  from t look tk have d2: "decimal_places 2 ?q
      (toFixed 2 (js_div (turnover24h (hd example_snapshot)) (Fin 1000000)))"
    by blast
  from t look rt have d4: "decimal_places 4 ?p
      (toFixed 4 (js_mul (t_fundingRate (hd example_snapshot)) (Fin 100)))"
    by blast
  from eff d2 d4 have "effects (processMinute_part000 insertion_sort (example_tick 59) example_scored) =
     [Select, Lookup,
      Emit \<lparr>p_symbol = Some ''AUSDT'', p_moves = Fin 300,
            turnover = Digits ''10.04'', fundingRate = Digits ''0.0006''\<rparr>]"
    and "decimal_places 2 ?q (Digits ''10.04'')"
    and "decimal_places 4 ?p (Digits ''0.0006'')"
    unfolding str2 str4 mv by blast+
  with k sec ok win look tv tr turnover_example(1) rate_example show ?thesis by blast
qed

theorem finalize_without_lookup_counterexample:
  "tick_seconds (example_tick 59) = 59 \<and> \<not> hasErrorThisMinute example_scored \<and>
   symbol (findBestPerformer insertion_sort example_scored) = Some ''AUSDT'' \<and>
   Lookup \<notin> set (effects (processMinute insertion_sort (example_tick 59) example_scored)) \<and>
   effects (processMinute insertion_sort (example_tick 59) example_scored) =
     [Select, Emit \<lparr>symbol = Some ''AUSDT'', moves = Fin 300, hasError = False\<rparr>]"
proof -
  have "\<not> hasErrorThisMinute example_scored"
    by (simp add: example_scored_def calculateVolatility_def Let_def example_history_def)
  then show ?thesis
    by (simp add: effects_processMinute example_scored_winner truthy_def example_tick_def)
qed

subsection \<open>The error flag\<close>

lemma forEach_ticker_flag:
  "hasErrorThisMinute (fst (forEach_ticker ct tks s)) = hasErrorThisMinute s"
  by (induction tks arbitrary: s) (auto simp: record_ticker_keys split: option.splits)

lemma fetchTickers_flag:
  "hasErrorThisMinute (fetchTickers resp ct s) \<longleftrightarrow>
     hasErrorThisMinute s \<or>
     (case resp of Rejected e \<Rightarrow> True | Resolved tks \<Rightarrow> snd (forEach_ticker ct tks s))"
proof (cases resp)
  case (Rejected e)
  then show ?thesis by (simp add: fetchTickers_def)
next
  case (Resolved tks)
  obtain s' thrown where f: "forEach_ticker ct tks s = (s', thrown)"
    by (cases "forEach_ticker ct tks s")
  with forEach_ticker_flag [of ct tks s] have "hasErrorThisMinute s' = hasErrorThisMinute s"
    by simp
  with Resolved f show ?thesis by (simp add: fetchTickers_def)
qed

lemma forEach_ticker_throws:
  "snd (forEach_ticker ct tks s) \<longleftrightarrow> (\<exists>tk \<in> set tks. t_symbol tk = None)"
  by (induction tks arbitrary: s) (auto split: option.splits)

lemma calculateVolatility_flag:
  "hasErrorThisMinute (calculateVolatility now s) = hasErrorThisMinute s"
  by (simp add: calculateVolatility_def Let_def)

text \<open>Only a reset clears the flag.\<close>

lemma run_step_flag:
  assumes "hasErrorThisMinute s" and "st \<noteq> StepReset"
  shows "hasErrorThisMinute (run_step st s)"
  using assms
  by (cases st) (simp_all add: fetchTickers_flag calculateVolatility_flag cleanupOldData_def)

lemma run_steps_flag:
  assumes "hasErrorThisMinute s" and "StepReset \<notin> set steps"
  shows "hasErrorThisMinute (run_steps steps s)"
  using assms unfolding run_steps_def
  by (induction steps arbitrary: s) (auto simp: run_step_flag)

text \<open>
  What holds of the flag in both files: a failed fetch of \<open>fetchTickers\<close> sets it, a tick
  that is not at second 0 keeps it unless the tick of second 0 resets the scanner
  meanwhile, and \<open>processMinute\<close> of \<open>server.js\<close> never throws.
\<close>

lemma fetch_failure_sets_flag:
  assumes "tick_seconds t < 59"
    and "tick_fetch t = Rejected e \<or>
         (\<exists>tks. tick_fetch t = Resolved tks \<and> (\<exists>tk \<in> set tks. t_symbol tk = None))"
    and "StepReset \<notin> set (tick_before_estimate t)"
  shows "hasErrorThisMinute (after (processMinute sort_by t s))"
    and "hasErrorThisMinute (after (processMinute_part000 sort_by t s))"
proof -
  from assms(2) have "case tick_fetch t of Rejected e \<Rightarrow> True
                      | Resolved tks \<Rightarrow> snd (forEach_ticker ct tks s')" for ct s'
    by (auto simp: forEach_ticker_throws)
  then have "hasErrorThisMinute (fetchTickers (tick_fetch t) ct s')" for ct s'
    by (simp add: fetchTickers_flag)
  with assms(1,3) show "hasErrorThisMinute (after (processMinute sort_by t s))"
    by (simp add: after_processMinute calculateVolatility_flag run_steps_flag)
  then show "hasErrorThisMinute (after (processMinute_part000 sort_by t s))"
    by (simp add: after_processMinute_part000)
qed

lemma flag_is_sticky:
  assumes "hasErrorThisMinute s" and "tick_seconds t \<noteq> 0"
    and "StepReset \<notin> set (tick_during_fetch t)" and "StepReset \<notin> set (tick_before_estimate t)"
  shows "hasErrorThisMinute (after (processMinute sort_by t s))"
    and "hasErrorThisMinute (after (processMinute_part000 sort_by t s))"
  using assms
  by (simp_all add: after_processMinute_part000 after_processMinute calculateVolatility_flag
      fetchTickers_flag run_steps_flag)

lemma flag_cleared_only_by_reset:
  assumes "hasErrorThisMinute s" and "\<not> hasErrorThisMinute (after (processMinute sort_by t s))"
  shows "tick_seconds t = 0 \<or> StepReset \<in> set (tick_during_fetch t) \<or>
         StepReset \<in> set (tick_before_estimate t)"
  using assms flag_is_sticky(1) by blast

lemma processMinute_never_throws: "raised (processMinute sort_by t s) = None"
  by (simp add: processMinute_def accumulate_def Let_def)

text \<open>
  Claim C8 does not hold of the second file: the read of the tickers at second 59 is outside
  any \<open>try\<close>, so its failure leaves \<open>processMinute\<close> as an exception and the flag stays
  clear.
\<close>

theorem lookup_failure_escapes:
  "raised (processMinute_part000 insertion_sort example_lookup_fails example_scored) =
     Some (FetchRejected ETIMEDOUT) \<and>
   \<not> hasErrorThisMinute
       (after (processMinute_part000 insertion_sort example_lookup_fails example_scored)) \<and>
   effects (processMinute_part000 insertion_sort example_lookup_fails example_scored) =
     [Select, Lookup]"
proof -
  have "\<not> hasErrorThisMinute example_scored"
    by (simp add: example_scored_def calculateVolatility_def Let_def example_history_def)
  then show ?thesis
    by (simp add: processMinute_part000_def accumulate_at_59 example_lookup_fails_def
        example_tick_def example_scored_winner truthy_def Let_def)
qed

section \<open>The example states can be reached\<close>

text \<open>
  The scored example is what three fetches and an estimate leave behind, and so is the
  state with two tied symbols and a third ahead of them.
\<close>

lemma example_scored_reachable: "reachable example_scored" and "reachable example_failed"
proof -
  let ?tk = "\<lambda>name p v. \<lparr>t_symbol = Some name, lastPrice = Fin p, turnover24h = Fin v,
                         t_fundingRate = Fin 0\<rparr>"
  let ?s = "fetchTickers (Resolved [?tk ''AUSDT'' 99 10045000, ?tk ''BUSDT'' 343 5000000,
                                    ?tk ''CUSDT'' 5 30000000]) 3000
              (fetchTickers (Resolved [?tk ''AUSDT'' 101 10045000, ?tk ''BUSDT'' 297 5000000]) 2000
                 (fetchTickers (Resolved [?tk ''AUSDT'' 100 10045000]) 1000 constructor))"
  have s: "?s = example_history\<lparr>volatilityScores := []\<rparr>"
    by (simp add: fetchTickers_def endsWith_def record_ticker_def constructor_def
        example_history_def)
  have scored: "example_scored = calculateVolatility 4000 ?s"
    unfolding s by (simp add: example_scored_def calculateVolatility_discards)
  have "calculateVolatility 4000 (fetchTickers (Rejected ETIMEDOUT) 3500 ?s) =
          (calculateVolatility 4000 ?s)\<lparr>hasErrorThisMinute := True\<rparr>"
    by (simp add: fetchTickers_def calculateVolatility_def Let_def)
  then have failed: "example_failed =
      calculateVolatility 4000 (fetchTickers (Rejected ETIMEDOUT) 3500 ?s)"
    by (simp add: example_failed_def scored)
  show "reachable example_scored"
    unfolding scored by (intro reachable.intros)
  show "reachable example_failed"
    unfolding failed by (intro reachable.intros)
qed

lemma example_three_reachable: "reachable example_three"
proof -
  let ?tk = "\<lambda>name p v. \<lparr>t_symbol = Some name, lastPrice = Fin p, turnover24h = Fin v,
                         t_fundingRate = Fin 0\<rparr>"
  let ?s = "fetchTickers (Resolved [?tk ''AUSDT'' 100 30000000, ?tk ''BUSDT'' 50 20000000,
                                    ?tk ''CUSDT'' 99 10000000]) 2000
              (fetchTickers (Resolved [?tk ''CUSDT'' 101 10000000]) 1500
                 (fetchTickers (Resolved [?tk ''AUSDT'' 100 30000000, ?tk ''BUSDT'' 50 20000000,
                                          ?tk ''CUSDT'' 100 10000000]) 1000 constructor))"
  have s: "?s = example_three\<lparr>volatilityScores := []\<rparr>"
    by (simp add: fetchTickers_def endsWith_def record_ticker_def constructor_def
        example_three_def)
  have flat: "spec_score [Fin 50, Fin 50] = Fin 0"
    by (simp add: spec_score_def spec_totalMovement_def spec_avgPrice_def js_sub_def js_add_def
        js_div_def js_mul_def zero_of_def round64_eval)
  have "calculateVolatility 3000 (example_three\<lparr>volatilityScores := []\<rparr>) = example_three"
    by (simp add: calculateVolatility_def example_three_def relevant_def Let_def
        volatilityScore_spec spec_score_example score_example_flat flat)
  then have three: "example_three = calculateVolatility 3000 ?s"
    unfolding s by simp
  show ?thesis
    unfolding three by (intro reachable.intros)
qed


end
